theory Spec2Isabelle
  imports Main "HOL-Library.Multiset"
begin

section \<open>Data model of the tracker (interfaces of \<^verbatim>\<open>src/App.tsx\<close>)\<close>

text \<open>
  The TypeScript interfaces \<^verbatim>\<open>Episode\<close>, \<^verbatim>\<open>Season\<close>, \<^verbatim>\<open>NextEpisode\<close> and
  \<^verbatim>\<open>Show\<close> become records. Field names carry a prefix per interface
  (\<open>ep_\<close>, \<open>sn_\<close>, \<open>ne_\<close>, \<open>sh_\<close>) because the interfaces share names such as
  \<^verbatim>\<open>watched\<close>, \<^verbatim>\<open>season\<close> and \<^verbatim>\<open>episodes\<close>. A field declared optional
  (\<^verbatim>\<open>airTime?: string\<close>) has an \<open>option\<close> type, \<open>None\<close> standing for
  \<^verbatim>\<open>undefined\<close>. Identifiers and season/episode numbers are integers, counts
  are natural numbers.
\<close>

record Episode =
  ep_id :: int
  ep_season :: int
  ep_episode :: int
  ep_title :: string
  ep_airDate :: string
  ep_airTime :: "string option"
  ep_runtime :: "int option"
  ep_summary :: "string option"
  ep_watched :: bool
  ep_watchedDate :: "string option"

record Season =
  sn_number :: int
  sn_episodes :: "Episode list"
  sn_totalEpisodes :: nat
  sn_watchedEpisodes :: nat

record NextEpisode =
  ne_season :: "int option"
  ne_episode :: "int option"
  ne_title :: "string option"
  ne_airDate :: "string option"
  ne_airTime :: "string option"
  ne_runtime :: "int option"
  ne_hasNext :: "bool option"

text \<open>
  The descriptive fields of a show (\<^verbatim>\<open>type\<close>, \<^verbatim>\<open>year\<close>, \<^verbatim>\<open>platform\<close>,
  \<^verbatim>\<open>genres\<close>, \<^verbatim>\<open>status\<close>, \<^verbatim>\<open>poster\<close>, \<^verbatim>\<open>rating\<close>, \<^verbatim>\<open>summary\<close>,
  \<^verbatim>\<open>language\<close>, \<^verbatim>\<open>runtime\<close>, \<^verbatim>\<open>premiered\<close>, \<^verbatim>\<open>officialSite\<close>,
  \<^verbatim>\<open>tvmazeUrl\<close>, \<^verbatim>\<open>lastWatchedEpisode\<close>) are never read or written by the
  operations below: every operation copies them with the object spread \<^verbatim>\<open>...show\<close>.
  They are kept together in \<open>sh_details\<close>, a list of (field name, value) pairs.
\<close>

record Show =
  sh_id :: string
  sh_title :: string
  sh_details :: "(string \<times> string) list"
  sh_nextEpisode :: "NextEpisode option"
  sh_tvmazeId :: int
  sh_addedDate :: "string option"
  sh_watched :: "bool option"
  sh_watchedEpisodes :: "string list option"
  sh_watchedDate :: "string option"
  sh_seasons :: "Season list"
  sh_episodes :: "Episode list"
  sh_totalEpisodes :: nat
  sh_watchedEpisodesCount :: nat
  sh_lastUpdated :: "string option"
  sh_expandedSeasons :: "int list option"

subsection \<open>The JavaScript \<^verbatim>\<open>Date\<close> builtin\<close>

text \<open>
  The code reads the clock with \<^verbatim>\<open>new Date()\<close>, parses stored strings with
  \<^verbatim>\<open>new Date(s)\<close> and prints instants with \<^verbatim>\<open>toISOString()\<close>. These builtins
  are parameters of the model: \<open>parseDate\<close> gives the time value in milliseconds of
  \<^verbatim>\<open>new Date(s)\<close>, and \<open>None\<close> for an Invalid Date (time value \<^verbatim>\<open>NaN\<close>), which
  is what the empty string and any unparsable string give; \<open>now\<close> is the time value
  of \<^verbatim>\<open>new Date()\<close>. One run of an operation reads the clock at one instant.
\<close>

record JsDate =
  parseDate :: "string \<Rightarrow> int option"
  toISOString :: "int \<Rightarrow> string"
  now :: int

text \<open>
  \<^verbatim>\<open>new Date(episode.airDate) <= now\<close>: both sides are converted to their time
  values, and a comparison with \<^verbatim>\<open>NaN\<close> is false.
\<close>

definition hasAired :: "JsDate \<Rightarrow> string \<Rightarrow> bool" where
  "hasAired env airDate =
     (case parseDate env airDate of None \<Rightarrow> False | Some t \<Rightarrow> t \<le> now env)"

text \<open>\<^verbatim>\<open>new Date().toISOString()\<close>\<close>

definition nowISO :: "JsDate \<Rightarrow> string" where
  "nowISO env = toISOString env (now env)"

section \<open>Season aggregation: \<^verbatim>\<open>organizeEpisodesIntoSeasons\<close>\<close>

text \<open>
  The \<^verbatim>\<open>Map<number, Episode[]>\<close> is an association list in insertion order, which
  is the order \<^verbatim>\<open>seasonMap.entries()\<close> iterates in. \<open>seasonMap_push\<close> is the body of
  the \<^verbatim>\<open>forEach\<close>: create the entry of the episode's season when the map has none,
  then push the episode onto that entry's array.
\<close>

fun seasonMap_push :: "(int \<times> Episode list) list \<Rightarrow> Episode \<Rightarrow> (int \<times> Episode list) list" where
  "seasonMap_push [] episode = [(ep_season episode, [episode])]"
| "seasonMap_push ((k, es) # m) episode =
     (if k = ep_season episode then (k, es @ [episode]) # m
      else (k, es) # seasonMap_push m episode)"

text \<open>
  \<^verbatim>\<open>Array.prototype.sort\<close> is stable and the comparators \<^verbatim>\<open>a - b\<close> are consistent
  on integers, so each sort is the stable insertion sort \<open>sort_key\<close>. The length and
  the watched count are read after the in-place sort of the season's array, which
  changes neither.
\<close>

definition toSeason :: "int \<times> Episode list \<Rightarrow> Season" where
  "toSeason entry =
     (case entry of (seasonNumber, seasonEpisodes) \<Rightarrow>
        \<lparr> sn_number = seasonNumber,
          sn_episodes = sort_key ep_episode seasonEpisodes,
          sn_totalEpisodes = length seasonEpisodes,
          sn_watchedEpisodes = length (filter ep_watched seasonEpisodes) \<rparr>)"

definition organizeEpisodesIntoSeasons :: "Episode list \<Rightarrow> Season list" where
  "organizeEpisodesIntoSeasons episodes =
     map toSeason (sort_key fst (foldl seasonMap_push [] episodes))"

section \<open>Refreshing a show: \<^verbatim>\<open>updateShowWithEpisodes\<close>\<close>

text \<open>\<^verbatim>\<open>x || undefined\<close> on an optional string: the empty string is falsy.\<close>

definition orUndefined :: "string option \<Rightarrow> string option" where
  "orUndefined x = (case x of None \<Rightarrow> None | Some s \<Rightarrow> if s = [] then None else Some s)"

text \<open>
  The body of \<^verbatim>\<open>freshEpisodes.map(freshEp => ...)\<close>: look the fresh episode's
  identifier up in the stored list with \<^verbatim>\<open>find\<close> (the first match), keep every
  fresh field and take \<^verbatim>\<open>watched\<close> and \<^verbatim>\<open>watchedDate\<close> from the match.
\<close>

definition mergeEpisode :: "Episode list \<Rightarrow> Episode \<Rightarrow> Episode" where
  "mergeEpisode stored freshEp =
     (let existingEp = find (\<lambda>ep. ep_id ep = ep_id freshEp) stored
      in freshEp\<lparr> ep_watched := (case existingEp of None \<Rightarrow> False | Some e \<Rightarrow> ep_watched e),
                  ep_watchedDate := (case existingEp of None \<Rightarrow> None
                                     | Some e \<Rightarrow> orUndefined (ep_watchedDate e)) \<rparr>)"

definition mergeWatchState :: "Episode list \<Rightarrow> Episode list \<Rightarrow> Episode list" where
  "mergeWatchState stored freshEpisodes = map (mergeEpisode stored) freshEpisodes"

text \<open>
  \<^verbatim>\<open>episodes.find(ep => !ep.watched && new Date(ep.airDate) <= new Date())\<close> and the
  snapshot object built from its result. The same two expressions occur in
  \<^verbatim>\<open>toggleEpisodeWatched\<close>, \<^verbatim>\<open>markSeasonWatched\<close> and \<^verbatim>\<open>markSeriesWatched\<close>.
\<close>

definition nextUnwatched :: "JsDate \<Rightarrow> Episode list \<Rightarrow> Episode option" where
  "nextUnwatched env episodes =
     find (\<lambda>ep. \<not> ep_watched ep \<and> hasAired env (ep_airDate ep)) episodes"

definition toNextEpisode :: "Episode \<Rightarrow> NextEpisode" where
  "toNextEpisode ep =
     \<lparr> ne_season = Some (ep_season ep),
       ne_episode = Some (ep_episode ep),
       ne_title = Some (ep_title ep),
       ne_airDate = Some (ep_airDate ep),
       ne_airTime = ep_airTime ep,
       ne_runtime = ep_runtime ep,
       ne_hasNext = Some True \<rparr>"

definition resolveNextEpisode :: "JsDate \<Rightarrow> Episode list \<Rightarrow> NextEpisode option" where
  "resolveNextEpisode env episodes = map_option toNextEpisode (nextUnwatched env episodes)"

text \<open>
  \<open>updateShowFromFresh\<close> is \<^verbatim>\<open>updateShowWithEpisodes\<close> from the point where
  \<^verbatim>\<open>await fetchEpisodeList(show.tvmazeId)\<close> has returned \<open>freshEpisodes\<close>.
\<close>

definition updateShowFromFresh :: "JsDate \<Rightarrow> Show \<Rightarrow> Episode list \<Rightarrow> Show" where
  "updateShowFromFresh env show freshEpisodes =
     (let episodes = mergeWatchState (sh_episodes show) freshEpisodes;
          seasons = organizeEpisodesIntoSeasons episodes;
          nextEpisode = resolveNextEpisode env episodes;
          watchedCount = length (filter ep_watched episodes)
      in show\<lparr> sh_episodes := episodes,
               sh_seasons := seasons,
               sh_totalEpisodes := length episodes,
               sh_watchedEpisodesCount := watchedCount,
               sh_nextEpisode := nextEpisode,
               sh_watched := Some (watchedCount = length episodes \<and> length episodes > 0),
               sh_lastUpdated := Some (nowISO env) \<rparr>)"

section \<open>The episode source: \<^verbatim>\<open>fetchEpisodeList\<close> and \<^verbatim>\<open>fetchEpisodesFromTvmaze\<close>\<close>

text \<open>
  An element of the JSON array served by \<^verbatim>\<open>/shows/{id}/episodes\<close>, with the fields
  both adapters read.
\<close>

record ApiEpisode =
  api_id :: int
  api_season :: int
  api_number :: int
  api_name :: string
  api_airdate :: string
  api_airtime :: "string option"
  api_runtime :: "int option"
  api_summary :: "string option"

text \<open>
  What one \<^verbatim>\<open>fetch\<close> of the episode endpoint can do: the promise rejects
  (\<open>NetworkError\<close>), or it resolves to a response with its \<^verbatim>\<open>ok\<close> flag and a body.
  The body is \<open>Some\<close> array of episodes, or \<open>None\<close> when \<^verbatim>\<open>response.json()\<close>
  rejects or yields something that is not an array (an error object has no
  \<^verbatim>\<open>map\<close> method, so \<^verbatim>\<open>episodes.map\<close> throws a TypeError).
\<close>

datatype FetchOutcome = NetworkError | Response bool "ApiEpisode list option"

text \<open>
  \<^verbatim>\<open>s.replace(/<[^>]*>/g, '')\<close>: a \<^verbatim>\<open><\<close> starts a match exactly when a \<^verbatim>\<open>>\<close>
  follows somewhere, and the match ends at the first such \<^verbatim>\<open>>\<close>. The flag says
  whether the scan is inside a match.
\<close>

fun stripTagsFrom :: "bool \<Rightarrow> string \<Rightarrow> string" where
  "stripTagsFrom inTag [] = []"
| "stripTagsFrom True (c # cs) =
     (if c = CHR ''>'' then stripTagsFrom False cs else stripTagsFrom True cs)"
| "stripTagsFrom False (c # cs) =
     (if c = CHR ''<'' \<and> CHR ''>'' \<in> set cs then stripTagsFrom True cs
      else c # stripTagsFrom False cs)"

definition stripTags :: "string \<Rightarrow> string" where
  "stripTags s = stripTagsFrom False s"

text \<open>
  The object literal of the frontend's \<^verbatim>\<open>episodes.map\<close>. An absent or empty
  summary is falsy and becomes the empty string.
\<close>

definition fromApiEpisode :: "ApiEpisode \<Rightarrow> Episode" where
  "fromApiEpisode ep =
     \<lparr> ep_id = api_id ep,
       ep_season = api_season ep,
       ep_episode = api_number ep,
       ep_title = api_name ep,
       ep_airDate = api_airdate ep,
       ep_airTime = api_airtime ep,
       ep_runtime = api_runtime ep,
       ep_summary = (case api_summary ep of None \<Rightarrow> Some []
                     | Some s \<Rightarrow> if s = [] then Some [] else Some (stripTags s)),
       ep_watched = False,
       ep_watchedDate = None \<rparr>"

text \<open>
  \<^verbatim>\<open>fetchEpisodeList\<close> (frontend). The whole body is inside \<^verbatim>\<open>try\<close>, and the
  \<^verbatim>\<open>catch\<close> logs the error and returns \<^verbatim>\<open>[]\<close>; \<^verbatim>\<open>response.ok\<close> is not read.
\<close>

definition fetchEpisodeList :: "FetchOutcome \<Rightarrow> Episode list" where
  "fetchEpisodeList outcome =
     (case outcome of
        NetworkError \<Rightarrow> []
      | Response ok body \<Rightarrow>
          (case body of None \<Rightarrow> [] | Some episodes \<Rightarrow> map fromApiEpisode episodes))"

text \<open>
  \<^verbatim>\<open>updateShowWithEpisodes\<close>: \<open>net\<close> gives the outcome of the fetch for a TVmaze
  identifier. The function has no throwing path, since \<^verbatim>\<open>fetchEpisodeList\<close>
  catches every error.
\<close>

definition updateShowWithEpisodes :: "JsDate \<Rightarrow> (int \<Rightarrow> FetchOutcome) \<Rightarrow> Show \<Rightarrow> Show" where
  "updateShowWithEpisodes env net show =
     updateShowFromFresh env show (fetchEpisodeList (net (sh_tvmazeId show)))"

text \<open>
  The backend's episode row (\<^verbatim>\<open>fetchEpisodesFromTvmaze\<close> in
  \<^verbatim>\<open>backend/src/services\<close>): \<^verbatim>\<open>x || null\<close> turns an empty string and a zero
  runtime into \<^verbatim>\<open>null\<close>.
\<close>

record TvmazeEpisode =
  te_id :: int
  te_season :: int
  te_episode :: int
  te_title :: string
  te_airDate :: string
  te_airTime :: "string option"
  te_runtime :: "int option"
  te_summary :: "string option"

definition toTvmazeEpisode :: "ApiEpisode \<Rightarrow> TvmazeEpisode" where
  "toTvmazeEpisode ep =
     \<lparr> te_id = api_id ep,
       te_season = api_season ep,
       te_episode = api_number ep,
       te_title = api_name ep,
       te_airDate = api_airdate ep,
       te_airTime = (case api_airtime ep of None \<Rightarrow> None
                     | Some t \<Rightarrow> if t = [] then None else Some t),
       te_runtime = (case api_runtime ep of None \<Rightarrow> None
                     | Some r \<Rightarrow> if r = 0 then None else Some r),
       te_summary = (case api_summary ep of None \<Rightarrow> None
                     | Some s \<Rightarrow> if s = [] then None else Some (stripTags s)) \<rparr>"

text \<open>
  \<^verbatim>\<open>fetchEpisodesFromTvmaze\<close> (backend): \<^verbatim>\<open>!response.ok\<close> throws inside the
  \<^verbatim>\<open>try\<close>, and the \<^verbatim>\<open>catch\<close> of the same function returns \<^verbatim>\<open>[]\<close>.
\<close>

definition fetchEpisodesFromTvmaze :: "FetchOutcome \<Rightarrow> TvmazeEpisode list" where
  "fetchEpisodesFromTvmaze outcome =
     (case outcome of
        NetworkError \<Rightarrow> []
      | Response ok body \<Rightarrow>
          (if \<not> ok then []
           else (case body of None \<Rightarrow> [] | Some episodes \<Rightarrow> map toTvmazeEpisode episodes)))"

section \<open>Operations on the watchlist\<close>

text \<open>
  The watchlist is the React state \<^verbatim>\<open>watchlist\<close>, a list of shows. Each operation
  is a function from the watchlist it reads to the watchlist it leaves: the handler
  reads \<^verbatim>\<open>watchlist\<close>, and its \<^verbatim>\<open>setWatchlist\<close> update is applied to that same
  list. The calls to \<^verbatim>\<open>apiClient\<close> that follow each update write to the external
  store; their failures are caught and logged and never change the list.
\<close>

definition newItem :: "JsDate \<Rightarrow> Show \<Rightarrow> Show" where
  "newItem env item =
     item\<lparr> sh_addedDate := Some (nowISO env),
           sh_watched := Some False,
           sh_watchedEpisodes := Some [],
           sh_seasons := [],
           sh_episodes := [],
           sh_totalEpisodes := 0,
           sh_watchedEpisodesCount := 0,
           sh_lastUpdated := Some (nowISO env),
           sh_expandedSeasons := Some [] \<rparr>"

text \<open>
  \<^verbatim>\<open>addToWatchlist\<close> up to its first \<^verbatim>\<open>await\<close>: return when the identifier is
  tracked already, else append \<^verbatim>\<open>newItem\<close>.
\<close>

definition addToWatchlist :: "JsDate \<Rightarrow> Show list \<Rightarrow> Show \<Rightarrow> Show list" where
  "addToWatchlist env watchlist item =
     (if find (\<lambda>w. sh_id w = sh_id item) watchlist \<noteq> None then watchlist
      else watchlist @ [newItem env item])"

text \<open>
  The background step of \<^verbatim>\<open>addToWatchlist\<close>, once the episode list has arrived:
  \<^verbatim>\<open>prevWatchlist.map(w => w.id === item.id ? updatedItem : w)\<close>.
\<close>

definition addToWatchlist_loaded ::
    "JsDate \<Rightarrow> (int \<Rightarrow> FetchOutcome) \<Rightarrow> Show list \<Rightarrow> Show \<Rightarrow> Show list" where
  "addToWatchlist_loaded env net prevWatchlist item =
     (let updatedItem = updateShowWithEpisodes env net (newItem env item)
      in map (\<lambda>w. if sh_id w = sh_id item then updatedItem else w) prevWatchlist)"

definition removeFromWatchlist :: "Show list \<Rightarrow> string \<Rightarrow> Show list" where
  "removeFromWatchlist watchlist itemId = filter (\<lambda>item. sh_id item \<noteq> itemId) watchlist"

text \<open>
  The three watched-setting handlers share their second half: recompute seasons,
  watched count, next episode and the watched flag from \<open>updatedEpisodes\<close> and
  spread them over \<open>currentShow\<close>. \<^verbatim>\<open>totalEpisodes\<close> is a local constant there
  and is not a key of the object literal, so the stored field is kept.
\<close>

definition withUpdatedEpisodes :: "JsDate \<Rightarrow> Show \<Rightarrow> Episode list \<Rightarrow> Show" where
  "withUpdatedEpisodes env currentShow updatedEpisodes =
     (let updatedSeasons = organizeEpisodesIntoSeasons updatedEpisodes;
          watchedCount = length (filter ep_watched updatedEpisodes);
          totalEpisodes = length updatedEpisodes;
          nextEpisode = resolveNextEpisode env updatedEpisodes
      in currentShow\<lparr> sh_episodes := updatedEpisodes,
                      sh_seasons := updatedSeasons,
                      sh_watchedEpisodesCount := watchedCount,
                      sh_watched := Some (watchedCount = totalEpisodes \<and> totalEpisodes > 0),
                      sh_nextEpisode := nextEpisode,
                      sh_lastUpdated := Some (nowISO env) \<rparr>)"

text \<open>\<^verbatim>\<open>prevWatchlist.map(show => show.id === showId ? updatedShow : show)\<close>\<close>

definition replaceShow :: "Show list \<Rightarrow> string \<Rightarrow> Show \<Rightarrow> Show list" where
  "replaceShow prevWatchlist showId updatedShow =
     map (\<lambda>show. if sh_id show = showId then updatedShow else show) prevWatchlist"

definition markEpisode :: "JsDate \<Rightarrow> bool \<Rightarrow> Episode \<Rightarrow> Episode" where
  "markEpisode env watched episode =
     (let aired = hasAired env (ep_airDate episode);
          shouldMarkWatched = (if watched then aired else False)
      in episode\<lparr> ep_watched := shouldMarkWatched,
                  ep_watchedDate := (if shouldMarkWatched then Some (nowISO env) else None) \<rparr>)"

definition markSeriesWatched :: "JsDate \<Rightarrow> Show list \<Rightarrow> string \<Rightarrow> bool \<Rightarrow> Show list" where
  "markSeriesWatched env watchlist showId watched =
     (case find (\<lambda>show. sh_id show = showId) watchlist of
        None \<Rightarrow> watchlist
      | Some currentShow \<Rightarrow>
          (let updatedEpisodes = map (markEpisode env watched) (sh_episodes currentShow);
               updatedShow = (withUpdatedEpisodes env currentShow updatedEpisodes)
                               \<lparr> sh_watchedDate := (if watched then Some (nowISO env) else None) \<rparr>
           in replaceShow watchlist showId updatedShow))"

definition toggleEpisode :: "JsDate \<Rightarrow> int \<Rightarrow> Episode \<Rightarrow> Episode" where
  "toggleEpisode env episodeId episode =
     (if ep_id episode = episodeId
      then episode\<lparr> ep_watched := \<not> ep_watched episode,
                    ep_watchedDate := (if \<not> ep_watched episode then Some (nowISO env) else None) \<rparr>
      else episode)"

definition toggleEpisodeWatched :: "JsDate \<Rightarrow> Show list \<Rightarrow> string \<Rightarrow> int \<Rightarrow> Show list" where
  "toggleEpisodeWatched env watchlist showId episodeId =
     (case find (\<lambda>show. sh_id show = showId) watchlist of
        None \<Rightarrow> watchlist
      | Some currentShow \<Rightarrow>
          (let updatedEpisodes = map (toggleEpisode env episodeId) (sh_episodes currentShow);
               updatedShow = withUpdatedEpisodes env currentShow updatedEpisodes
           in replaceShow watchlist showId updatedShow))"

definition markSeasonWatched ::
    "JsDate \<Rightarrow> Show list \<Rightarrow> string \<Rightarrow> int \<Rightarrow> bool \<Rightarrow> Show list" where
  "markSeasonWatched env watchlist showId seasonNumber watched =
     (case find (\<lambda>show. sh_id show = showId) watchlist of
        None \<Rightarrow> watchlist
      | Some currentShow \<Rightarrow>
          (let updatedEpisodes =
                 map (\<lambda>episode. if ep_season episode = seasonNumber
                                 then markEpisode env watched episode else episode)
                     (sh_episodes currentShow);
               updatedShow = withUpdatedEpisodes env currentShow updatedEpisodes
           in replaceShow watchlist showId updatedShow))"

definition toggleSeasonExpansion :: "Show list \<Rightarrow> string \<Rightarrow> int \<Rightarrow> Show list" where
  "toggleSeasonExpansion prevWatchlist showId seasonNumber =
     map (\<lambda>show.
            if sh_id show = showId
            then (let currentExpanded = (case sh_expandedSeasons show of None \<Rightarrow> [] | Some l \<Rightarrow> l);
                      isExpanded = (seasonNumber \<in> set currentExpanded)
                  in show\<lparr> sh_expandedSeasons :=
                             Some (if isExpanded then filter (\<lambda>s. s \<noteq> seasonNumber) currentExpanded
                                   else currentExpanded @ [seasonNumber]) \<rparr>)
            else show)
         prevWatchlist"

section \<open>The daily refresh: \<^verbatim>\<open>updateShowsDaily\<close>\<close>

text \<open>
  The loop \<^verbatim>\<open>for (let i = 0; i < xs.length; i += batchSize)\<close> with
  \<^verbatim>\<open>xs.slice(i, i + batchSize)\<close> cuts the list into consecutive batches. The batch
  size is the constant 3 (frontend) or 5 (backend); a size of 0 does not occur.
\<close>

fun batchesOf :: "nat \<Rightarrow> 'a list \<Rightarrow> 'a list list" where
  "batchesOf batchSize xs =
     (if xs = [] \<or> batchSize = 0 then []
      else take batchSize xs # batchesOf batchSize (drop batchSize xs))"

declare batchesOf.simps [simp del]

text \<open>
  The filter of \<^verbatim>\<open>updateShowsDaily\<close>: a show with no (or an empty)
  \<^verbatim>\<open>lastUpdated\<close> is due, otherwise it is due when its date is more than 24 hours
  old; an Invalid Date compares false.
\<close>

definition needsUpdate :: "JsDate \<Rightarrow> Show \<Rightarrow> bool" where
  "needsUpdate env show =
     (case sh_lastUpdated show of
        None \<Rightarrow> True
      | Some s \<Rightarrow>
          (if s = [] then True
           else (case parseDate env s of
                   None \<Rightarrow> False
                 | Some lastUpdated \<Rightarrow> lastUpdated < now env - 24 * 60 * 60 * 1000)))"

text \<open>
  One batch: every show of the batch goes through \<^verbatim>\<open>updateShowWithEpisodes\<close>
  inside \<^verbatim>\<open>try\<close>. The \<^verbatim>\<open>catch\<close> branch, commented
  \<^verbatim>\<open>// Return original show if update fails\<close>, would return the show itself; it is
  never entered, because \<^verbatim>\<open>updateShowWithEpisodes\<close> has no throwing path. Then
  \<^verbatim>\<open>prevWatchlist.map(show => updates.find(u => u.id === show.id) || show)\<close>.
\<close>

definition updateBatch :: "JsDate \<Rightarrow> (int \<Rightarrow> FetchOutcome) \<Rightarrow> Show list \<Rightarrow> Show list \<Rightarrow> Show list" where
  "updateBatch env net prevWatchlist batch =
     (let updates = map (updateShowWithEpisodes env net) batch
      in map (\<lambda>show. case find (\<lambda>u. sh_id u = sh_id show) updates of
                        None \<Rightarrow> show | Some updatedShow \<Rightarrow> updatedShow)
             prevWatchlist)"

definition updateShowsDaily :: "JsDate \<Rightarrow> (int \<Rightarrow> FetchOutcome) \<Rightarrow> Show list \<Rightarrow> Show list" where
  "updateShowsDaily env net watchlist =
     (if watchlist = [] then watchlist
      else (let showsToUpdate = filter (needsUpdate env) watchlist
            in if showsToUpdate = [] then watchlist
               else foldl (updateBatch env net) watchlist (batchesOf 3 showsToUpdate)))"

text \<open>
  The watchlists the handlers can produce, starting from the empty list. Every
  step may run at its own instant and see its own network.
\<close>

inductive reachable :: "Show list \<Rightarrow> bool" where
  r_empty: "reachable []"
| r_add: "reachable wl \<Longrightarrow> reachable (addToWatchlist env wl item)"
| r_loaded: "reachable wl \<Longrightarrow> reachable (addToWatchlist_loaded env net wl item)"
| r_remove: "reachable wl \<Longrightarrow> reachable (removeFromWatchlist wl itemId)"
| r_series: "reachable wl \<Longrightarrow> reachable (markSeriesWatched env wl showId watched)"
| r_toggle: "reachable wl \<Longrightarrow> reachable (toggleEpisodeWatched env wl showId episodeId)"
| r_season: "reachable wl \<Longrightarrow> reachable (markSeasonWatched env wl showId seasonNumber watched)"
| r_expand: "reachable wl \<Longrightarrow> reachable (toggleSeasonExpansion wl showId seasonNumber)"
| r_daily: "reachable wl \<Longrightarrow> reachable (updateShowsDaily env net wl)"

section \<open>The backend's batch update: \<^verbatim>\<open>updateAllShowsEpisodes\<close>\<close>

text \<open>
  The Prisma schema is not part of the sources at hand; the tables carry the
  columns the service reads and writes. An episode row is the fetched episode with
  its \<^verbatim>\<open>showId\<close>.
\<close>

record DbShow =
  ds_id :: string
  ds_tvmazeId :: int
  ds_title :: string
  ds_totalEpisodes :: nat
  ds_lastApiUpdate :: int

record Db =
  db_shows :: "DbShow list"
  db_episodes :: "(string \<times> TvmazeEpisode) list"

text \<open>
  \<^verbatim>\<open>createMany({ data, skipDuplicates: true })\<close>: a row whose primary key is in the
  table already is skipped.
\<close>

fun createMany :: "(string \<times> TvmazeEpisode) list \<Rightarrow> (string \<times> TvmazeEpisode) list
                   \<Rightarrow> (string \<times> TvmazeEpisode) list" where
  "createMany table [] = table"
| "createMany table (row # rows) =
     (if te_id (snd row) \<in> set (map (te_id \<circ> snd) table) then createMany table rows
      else createMany (table @ [row]) rows)"

datatype ServiceError = PrismaError

text \<open>
  \<^verbatim>\<open>updateSingleShow\<close>. \<open>prismaFails showId\<close> says that the database calls made
  for this show reject; the first of them is \<^verbatim>\<open>prisma.episode.findMany\<close>, reached
  only when the fetched list is not empty. The \<^verbatim>\<open>catch\<close> logs and rethrows.
\<close>

definition updateSingleShow ::
    "JsDate \<Rightarrow> (int \<Rightarrow> FetchOutcome) \<Rightarrow> (string \<Rightarrow> bool) \<Rightarrow> Db \<Rightarrow> string \<Rightarrow> int
     \<Rightarrow> ServiceError + Db" where
  "updateSingleShow env net prismaFails db showId tvmazeId =
     (let latestEpisodes = fetchEpisodesFromTvmaze (net tvmazeId)
      in if length latestEpisodes = 0 then Inr db
         else if prismaFails showId then Inl PrismaError
         else (let existingEpisodeIds =
                     set (map (te_id \<circ> snd) (filter (\<lambda>row. fst row = showId) (db_episodes db)));
                   newEpisodes = filter (\<lambda>ep. te_id ep \<notin> existingEpisodeIds) latestEpisodes;
                   episodes' = (if length newEpisodes > 0
                                then createMany (db_episodes db) (map (\<lambda>ep. (showId, ep)) newEpisodes)
                                else db_episodes db);
                   shows' = map (\<lambda>s. if ds_id s = showId
                                      then s\<lparr> ds_totalEpisodes := length latestEpisodes,
                                              ds_lastApiUpdate := now env \<rparr>
                                      else s) (db_shows db)
               in Inr \<lparr> db_shows = shows', db_episodes = episodes' \<rparr>))"

text \<open>
  The state of the run: the two counters and the database. One show of a batch:
  \<^verbatim>\<open>try { await updateSingleShow(...); updatedCount++ } catch { errorCount++ }\<close>.
  The promises of a batch touch disjoint rows; they are run here in list order.
\<close>

record RunState =
  updatedCount :: nat
  errorCount :: nat
  database :: Db

definition updateOne ::
    "JsDate \<Rightarrow> (int \<Rightarrow> FetchOutcome) \<Rightarrow> (string \<Rightarrow> bool) \<Rightarrow> RunState \<Rightarrow> DbShow \<Rightarrow> RunState" where
  "updateOne env net prismaFails st show =
     (case updateSingleShow env net prismaFails (database st) (ds_id show) (ds_tvmazeId show) of
        Inr db' \<Rightarrow> st\<lparr> updatedCount := updatedCount st + 1, database := db' \<rparr>
      | Inl error \<Rightarrow> st\<lparr> errorCount := errorCount st + 1 \<rparr>)"

text \<open>
  \<^verbatim>\<open>updateAllShowsEpisodes\<close>: \<open>findManyFails\<close> says that the initial
  \<^verbatim>\<open>prisma.show.findMany\<close> rejects, which the outer \<^verbatim>\<open>catch\<close> rethrows. Otherwise
  the result is \<^verbatim>\<open>{ updatedCount, errorCount }\<close>, returned here with the database
  the run leaves.
\<close>

definition updateAllShowsEpisodes ::
    "JsDate \<Rightarrow> (int \<Rightarrow> FetchOutcome) \<Rightarrow> (string \<Rightarrow> bool) \<Rightarrow> bool \<Rightarrow> Db
     \<Rightarrow> ServiceError + RunState" where
  "updateAllShowsEpisodes env net prismaFails findManyFails db =
     (if findManyFails then Inl PrismaError
      else (let oneDayAgo = now env - 24 * 60 * 60 * 1000;
                showsToUpdate = filter (\<lambda>s. ds_lastApiUpdate s < oneDayAgo) (db_shows db)
            in Inr (foldl (\<lambda>st batch. foldl (updateOne env net prismaFails) st batch)
                          \<lparr> updatedCount = 0, errorCount = 0, database = db \<rparr>
                          (batchesOf 5 showsToUpdate))))"

section \<open>Predicates and reference definitions used in the statements\<close>

text \<open>
  The invariant that the entries of the season map satisfy while the \<^verbatim>\<open>forEach\<close>
  of \<^verbatim>\<open>organizeEpisodesIntoSeasons\<close> runs over \<open>eps\<close>: keys are distinct, they are
  the season numbers seen so far, and the array under a key holds the episodes of
  that season in input order.
\<close>

definition seasonMap_inv :: "(int \<times> Episode list) list \<Rightarrow> Episode list \<Rightarrow> bool" where
  "seasonMap_inv m eps \<longleftrightarrow>
     distinct (map fst m) \<and> fst ` set m = ep_season ` set eps \<and>
     (\<forall>p \<in> set m. snd p = filter (\<lambda>e. ep_season e = fst p) eps)"

text \<open>
  The season with number \<open>n\<close> that the aggregation builds from \<open>eps\<close>: the season
  record of the episodes of \<open>eps\<close> whose season number is \<open>n\<close>.
\<close>

definition seasonOf :: "Episode list \<Rightarrow> int \<Rightarrow> Season" where
  "seasonOf eps n = toSeason (n, filter (\<lambda>e. ep_season e = n) eps)"

text \<open>
  The invariant of the Show entity: \<^verbatim>\<open>watched\<close> is true exactly when the show has
  episodes and all of them are counted as watched.
\<close>

definition watchedInvariant :: "Show \<Rightarrow> bool" where
  "watchedInvariant show \<longleftrightarrow>
     (sh_watched show = Some True) =
       (sh_totalEpisodes show > 0 \<and> sh_watchedEpisodesCount show = sh_totalEpisodes show)"

text \<open>The derived counters agree with the episode list they were computed from.\<close>

definition countersMatch :: "Show \<Rightarrow> bool" where
  "countersMatch show \<longleftrightarrow>
     sh_totalEpisodes show = length (sh_episodes show) \<and>
     sh_watchedEpisodesCount show = length (filter ep_watched (sh_episodes show))"

text \<open>The two together: what every handler leaves true of every tracked show.\<close>

definition showOk :: "Show \<Rightarrow> bool" where
  "showOk s \<longleftrightarrow> countersMatch s \<and> watchedInvariant s"

text \<open>
  The next-episode resolver as the specification words it: among the episodes that
  are unwatched and have aired, the earliest by air date, ties broken by season and
  then by episode number.
\<close>

definition spec_before :: "JsDate \<Rightarrow> Episode \<Rightarrow> Episode \<Rightarrow> bool" where
  "spec_before env a b =
     (case (parseDate env (ep_airDate a), parseDate env (ep_airDate b)) of
        (Some ta, Some tb) \<Rightarrow>
          ta < tb \<or> (ta = tb \<and> (ep_season a < ep_season b \<or>
                                   (ep_season a = ep_season b \<and> ep_episode a < ep_episode b)))
      | _ \<Rightarrow> False)"

definition spec_nextEpisode :: "JsDate \<Rightarrow> Episode list \<Rightarrow> NextEpisode option" where
  "spec_nextEpisode env episodes =
     (case filter (\<lambda>ep. \<not> ep_watched ep \<and> hasAired env (ep_airDate ep)) episodes of
        [] \<Rightarrow> None
      | c # cs \<Rightarrow>
          Some (toNextEpisode (foldl (\<lambda>best ep. if spec_before env ep best then ep else best) c cs)))"

subsection \<open>Values for the worked examples\<close>

text \<open>
  A clock standing at 2024-02-15T00:00:00Z and a parser that knows three dates
  (given with their time values); every other string is an Invalid Date.
\<close>

definition ex_dates :: "string \<Rightarrow> int option" where
  "ex_dates = map_of [(''2024-01-01'', 1704067200000), (''2024-02-01'', 1706745600000),
                      (''2024-03-01'', 1709251200000)]"

definition ex_env :: JsDate where
  "ex_env = \<lparr> parseDate = ex_dates, toISOString = (\<lambda>t. ''2024-02-15T00:00:00.000Z''),
             now = 1707955200000 \<rparr>"

definition ex_episode :: "int \<Rightarrow> int \<Rightarrow> int \<Rightarrow> string \<Rightarrow> bool \<Rightarrow> Episode" where
  "ex_episode i s n airDate w =
     \<lparr> ep_id = i, ep_season = s, ep_episode = n, ep_title = ''Episode'', ep_airDate = airDate,
       ep_airTime = None, ep_runtime = None, ep_summary = Some [],
       ep_watched = w, ep_watchedDate = (if w then Some ''2024-01-02T00:00:00.000Z'' else None) \<rparr>"

definition ex_show :: "string \<Rightarrow> int \<Rightarrow> Episode list \<Rightarrow> Show" where
  "ex_show i t episodes =
     \<lparr> sh_id = i, sh_title = ''Show'', sh_details = [], sh_nextEpisode = None, sh_tvmazeId = t,
       sh_addedDate = None, sh_watched = Some False, sh_watchedEpisodes = None,
       sh_watchedDate = None, sh_seasons = organizeEpisodesIntoSeasons episodes,
       sh_episodes = episodes, sh_totalEpisodes = length episodes,
       sh_watchedEpisodesCount = length (filter ep_watched episodes),
       sh_lastUpdated = None, sh_expandedSeasons = None \<rparr>"

definition ex_api :: "int \<Rightarrow> int \<Rightarrow> int \<Rightarrow> string \<Rightarrow> ApiEpisode" where
  "ex_api i s n airdate =
     \<lparr> api_id = i, api_season = s, api_number = n, api_name = ''Episode'', api_airdate = airdate,
       api_airtime = None, api_runtime = None, api_summary = None \<rparr>"

text \<open>
  Five tracked shows due for a refresh, each with one watched episode stored, and
  a network on which the fetch for the third show fails while every other show
  has two published episodes. \<open>ex_db\<close> is the backend's view of the same five
  shows.
\<close>

definition ex_net :: "int \<Rightarrow> FetchOutcome" where
  "ex_net t =
     (if t = 3 then NetworkError
      else Response True (Some [ex_api (10 * t) 1 1 ''2024-01-01'',
                                ex_api (10 * t + 1) 1 2 ''2024-02-01'']))"

definition ex_watchlist :: "Show list" where
  "ex_watchlist =
     [ex_show ''tvmaze-1'' 1 [ex_episode 10 1 1 ''2024-01-01'' True],
      ex_show ''tvmaze-2'' 2 [ex_episode 20 1 1 ''2024-01-01'' True],
      ex_show ''tvmaze-3'' 3 [ex_episode 30 1 1 ''2024-01-01'' True],
      ex_show ''tvmaze-4'' 4 [ex_episode 40 1 1 ''2024-01-01'' True],
      ex_show ''tvmaze-5'' 5 [ex_episode 50 1 1 ''2024-01-01'' True]]"

definition ex_dbShow :: "string \<Rightarrow> int \<Rightarrow> DbShow" where
  "ex_dbShow i t =
     \<lparr> ds_id = i, ds_tvmazeId = t, ds_title = ''Show'', ds_totalEpisodes = 1,
       ds_lastApiUpdate = 0 \<rparr>"

definition ex_db :: Db where
  "ex_db = \<lparr> db_shows = [ex_dbShow ''show-1'' 1, ex_dbShow ''show-2'' 2, ex_dbShow ''show-3'' 3,
                          ex_dbShow ''show-4'' 4, ex_dbShow ''show-5'' 5],
             db_episodes = [] \<rparr>"

section \<open>Watch-state merge\<close>

lemma sh_episodes_updateShowFromFresh:
  "sh_episodes (updateShowFromFresh env sh F) = mergeWatchState (sh_episodes sh) F"
  by (simp add: updateShowFromFresh_def Let_def)

lemma find_by_id_distinct:
  "distinct (map ep_id P) \<Longrightarrow> prior \<in> set P \<Longrightarrow>
   find (\<lambda>ep. ep_id ep = ep_id prior) P = Some prior"
proof (induction P)
  case Nil
  then show ?case by simp
next
  case (Cons a P)
  show ?case
  proof (cases "a = prior")
    case True
    then show ?thesis by simp
  next
    case False
    with Cons.prems have "prior \<in> set P" by simp
    then have "ep_id prior \<in> set (map ep_id P)" by simp
    with Cons.prems have "ep_id a \<noteq> ep_id prior" by auto
    with Cons show ?thesis using \<open>prior \<in> set P\<close> by simp
  qed
qed

lemma find_by_id_absent:
  "k \<notin> ep_id ` set P \<Longrightarrow> find (\<lambda>ep. ep_id ep = k) P = None"
  by (induction P) auto

text \<open>
  C1. Refreshing keeps the watch state. Let \<open>F\<close> be the fetched list and \<open>i\<close> a
  position in it. The refreshed show has one episode per fetched episode. If the
  stored list (identifiers distinct, as the data model requires) holds an episode
  \<open>prior\<close> with the identifier of \<open>F ! i\<close> that is watched, then episode \<open>i\<close> of the
  result is \<open>F ! i\<close> with \<^verbatim>\<open>watched = true\<close> and the prior \<^verbatim>\<open>watchedDate\<close> (a
  non-empty string, as every date the code writes is): all other fields are the
  fresh ones. If the identifier of \<open>F ! i\<close> does not occur in the stored list,
  episode \<open>i\<close> of the result is \<open>F ! i\<close> with \<^verbatim>\<open>watched = false\<close>.
\<close>

theorem watch_state_preserved:
  assumes "i < length F"
  shows "length (sh_episodes (updateShowFromFresh env sh F)) = length F \<and>
         (distinct (map ep_id (sh_episodes sh)) \<and> prior \<in> set (sh_episodes sh) \<and>
          ep_id prior = ep_id (F ! i) \<and> ep_watched prior \<and> ep_watchedDate prior \<noteq> Some [] \<longrightarrow>
            sh_episodes (updateShowFromFresh env sh F) ! i =
              (F ! i)\<lparr> ep_watched := True, ep_watchedDate := ep_watchedDate prior \<rparr>) \<and>
         (ep_id (F ! i) \<notin> ep_id ` set (sh_episodes sh) \<longrightarrow>
            sh_episodes (updateShowFromFresh env sh F) ! i =
              (F ! i)\<lparr> ep_watched := False, ep_watchedDate := None \<rparr>)"
proof -
  let ?P = "sh_episodes sh"
  have nth: "sh_episodes (updateShowFromFresh env sh F) ! i = mergeEpisode ?P (F ! i)"
    using assms by (simp add: sh_episodes_updateShowFromFresh mergeWatchState_def)
  have len: "length (sh_episodes (updateShowFromFresh env sh F)) = length F"
    by (simp add: sh_episodes_updateShowFromFresh mergeWatchState_def)
  have found: "mergeEpisode ?P (F ! i) =
                 (F ! i)\<lparr> ep_watched := True, ep_watchedDate := ep_watchedDate prior \<rparr>"
    if "distinct (map ep_id ?P)" "prior \<in> set ?P" "ep_id prior = ep_id (F ! i)"
       "ep_watched prior" "ep_watchedDate prior \<noteq> Some []"
  proof -
    have "find (\<lambda>ep. ep_id ep = ep_id (F ! i)) ?P = Some prior"
      using find_by_id_distinct[OF that(1,2)] that(3) by simp
    moreover have "orUndefined (ep_watchedDate prior) = ep_watchedDate prior"
      using that(5) by (simp add: orUndefined_def split: option.splits)
    ultimately show ?thesis using that(4) by (simp add: mergeEpisode_def)
  qed
  have absent: "mergeEpisode ?P (F ! i) = (F ! i)\<lparr> ep_watched := False, ep_watchedDate := None \<rparr>"
    if "ep_id (F ! i) \<notin> ep_id ` set ?P"
    using find_by_id_absent[OF that] by (simp add: mergeEpisode_def)
  show ?thesis using len nth found absent by simp
qed

theorem watch_state_preserved_witness:
  "(0::nat) < length [ex_episode 7 2 5 ''2024-03-01'' False, ex_episode 8 2 6 ''2024-03-01'' False] \<and>
   sh_episodes (updateShowFromFresh ex_env (ex_show ''tvmaze-1'' 1 [ex_episode 7 1 1 ''2024-01-01'' True])
     [ex_episode 7 2 5 ''2024-03-01'' False, ex_episode 8 2 6 ''2024-03-01'' False]) ! 0 =
   (ex_episode 7 2 5 ''2024-03-01'' False)
     \<lparr> ep_watched := True, ep_watchedDate := Some ''2024-01-02T00:00:00.000Z'' \<rparr> \<and>
   sh_episodes (updateShowFromFresh ex_env (ex_show ''tvmaze-1'' 1 [ex_episode 7 1 1 ''2024-01-01'' True])
     [ex_episode 7 2 5 ''2024-03-01'' False, ex_episode 8 2 6 ''2024-03-01'' False]) ! 1 =
   (ex_episode 8 2 6 ''2024-03-01'' False)\<lparr> ep_watched := False, ep_watchedDate := None \<rparr>"
  using watch_state_preserved[where i = 0
      and F = "[ex_episode 7 2 5 ''2024-03-01'' False, ex_episode 8 2 6 ''2024-03-01'' False]"
      and sh = "ex_show ''tvmaze-1'' 1 [ex_episode 7 1 1 ''2024-01-01'' True]"
      and prior = "ex_episode 7 1 1 ''2024-01-01'' True" and env = ex_env]
    watch_state_preserved[where i = 1
      and F = "[ex_episode 7 2 5 ''2024-03-01'' False, ex_episode 8 2 6 ''2024-03-01'' False]"
      and sh = "ex_show ''tvmaze-1'' 1 [ex_episode 7 1 1 ''2024-01-01'' True]"
      and prior = "ex_episode 7 1 1 ''2024-01-01'' True" and env = ex_env]
  by (simp add: ex_show_def ex_episode_def)

subsection \<open>Idempotence\<close>

lemma ep_id_mergeEpisode: "ep_id (mergeEpisode P f) = ep_id f"
  by (simp add: mergeEpisode_def Let_def)

lemma find_map_merge:
  "find (\<lambda>ep. ep_id ep = k) (map (mergeEpisode P) F) =
   map_option (mergeEpisode P) (find (\<lambda>ep. ep_id ep = k) F)"
  by (induction F) (simp_all add: ep_id_mergeEpisode)

lemma orUndefined_idem: "orUndefined (orUndefined x) = orUndefined x"
  by (simp add: orUndefined_def split: option.splits)

lemma find_self_id:
  "f \<in> set F \<Longrightarrow> \<exists>g. find (\<lambda>ep. ep_id ep = ep_id f) F = Some g \<and> ep_id g = ep_id f"
  by (induction F) auto

lemma mergeEpisode_cong:
  "ep_id g = ep_id f \<Longrightarrow>
   ep_watched (mergeEpisode P g) = ep_watched (mergeEpisode P f) \<and>
   ep_watchedDate (mergeEpisode P g) = ep_watchedDate (mergeEpisode P f)"
  by (simp add: mergeEpisode_def Let_def)

text \<open>
  Merging a fresh episode against the already merged list gives what merging it
  against the stored list gave: the first merged episode with its identifier took
  its watch state from the same stored episode.
\<close>

lemma mergeEpisode_again:
  assumes "f \<in> set F"
  shows "mergeEpisode (map (mergeEpisode P) F) f = mergeEpisode P f"
proof -
  obtain g where g: "find (\<lambda>ep. ep_id ep = ep_id f) F = Some g" "ep_id g = ep_id f"
    using find_self_id[OF assms] by blast
  have w: "ep_watched (mergeEpisode P g) = ep_watched (mergeEpisode P f)"
    and d: "ep_watchedDate (mergeEpisode P g) = ep_watchedDate (mergeEpisode P f)"
    using mergeEpisode_cong[OF g(2)] by auto
  have d2: "orUndefined (ep_watchedDate (mergeEpisode P f)) = ep_watchedDate (mergeEpisode P f)"
    by (simp add: mergeEpisode_def Let_def orUndefined_idem split: option.splits)
       (simp add: orUndefined_def)
  show ?thesis
    unfolding mergeEpisode_def[of "map (mergeEpisode P) F" f] Let_def find_map_merge g
    using w d d2 by (simp add: mergeEpisode_def Let_def)
qed

lemma mergeWatchState_idem: "mergeWatchState (mergeWatchState P F) F = mergeWatchState P F"
  unfolding mergeWatchState_def by (rule map_cong) (simp_all add: mergeEpisode_again)

text \<open>
  C3. Merging the same fresh list \<open>F\<close> a second time changes nothing: the episode
  list of the twice-refreshed show is the episode list of the once-refreshed show
  (whatever the clock reads at the second refresh), and when the clock reads the
  same instant the whole show, derived fields included, is the same.
\<close>

theorem merge_idempotent:
  "sh_episodes (updateShowFromFresh env' (updateShowFromFresh env sh F) F) =
     sh_episodes (updateShowFromFresh env sh F) \<and>
   updateShowFromFresh env (updateShowFromFresh env sh F) F = updateShowFromFresh env sh F"
  by (simp add: updateShowFromFresh_def Let_def mergeWatchState_idem)

section \<open>Season aggregation\<close>



lemma seasonMap_push_distinct:
  "distinct (map fst m) \<Longrightarrow>
   seasonMap_push m e =
     (if ep_season e \<in> fst ` set m
      then map (\<lambda>p. if fst p = ep_season e then (fst p, snd p @ [e]) else p) m
      else m @ [(ep_season e, [e])])"
proof (induction m)
  case Nil
  then show ?case by simp
next
  case (Cons p m)
  obtain k es where p: "p = (k, es)" by (cases p)
  from Cons.prems have d: "distinct (map fst m)" and k: "k \<notin> fst ` set m"
    by (simp_all add: p)
  show ?case
  proof (cases "k = ep_season e")
    case True
    have "\<forall>q\<in>set m. fst q \<noteq> ep_season e" using k True by (metis imageI)
    then have "map (\<lambda>p. if fst p = ep_season e then (fst p, snd p @ [e]) else p) m = m"
      by (intro map_idI) simp
    then show ?thesis using True by (simp add: p)
  next
    case False
    then show ?thesis using Cons.IH[OF d] by (simp add: p)
  qed
qed

lemma seasonMap_inv_push:
  assumes "seasonMap_inv m eps"
  shows "seasonMap_inv (seasonMap_push m e) (eps @ [e])"
proof -
  from assms have d: "distinct (map fst m)"
    and k: "fst ` set m = ep_season ` set eps"
    and c: "\<forall>p \<in> set m. snd p = filter (\<lambda>e. ep_season e = fst p) eps"
    by (simp_all add: seasonMap_inv_def)
  show ?thesis
  proof (cases "ep_season e \<in> fst ` set m")
    case True
    let ?g = "\<lambda>p. if fst p = ep_season e then (fst p, snd p @ [e]) else p"
    have eq: "seasonMap_push m e = map ?g m"
      using seasonMap_push_distinct[OF d] True by simp
    have fst_g: "map fst (map ?g m) = map fst m" by (induction m) simp_all
    have "distinct (map fst (map ?g m))" unfolding fst_g using d .
    moreover have "fst ` set (map ?g m) = ep_season ` set (eps @ [e])"
    proof -
      have "fst ` set (map ?g m) = set (map fst (map ?g m))" by (simp only: set_map)
      also have "\<dots> = fst ` set m" unfolding fst_g by simp
      also have "\<dots> = ep_season ` set (eps @ [e])" using k True by auto
      finally show ?thesis .
    qed
    moreover have "\<forall>p \<in> set (map ?g m). snd p = filter (\<lambda>x. ep_season x = fst p) (eps @ [e])"
    proof
      fix p assume "p \<in> set (map ?g m)"
      then have "p \<in> ?g ` set m" by (simp only: set_map)
      then obtain q where q: "q \<in> set m" and pq: "p = ?g q" by (rule imageE)
      from c q have sq: "snd q = filter (\<lambda>e. ep_season e = fst q) eps" by blast
      show "snd p = filter (\<lambda>x. ep_season x = fst p) (eps @ [e])"
        by (cases "fst q = ep_season e") (simp_all add: pq sq)
    qed
    ultimately show ?thesis unfolding seasonMap_inv_def eq by blast
  next
    case False
    have eq: "seasonMap_push m e = m @ [(ep_season e, [e])]"
      using seasonMap_push_distinct[OF d] False by simp
    have "ep_season e \<notin> ep_season ` set eps" using False k by simp
    then have "\<forall>x\<in>set eps. ep_season x \<noteq> ep_season e" by (metis imageI)
    then have emp: "filter (\<lambda>x. ep_season x = ep_season e) eps = []"
      by (simp add: filter_empty_conv)
    have ne: "\<forall>p \<in> set m. fst p \<noteq> ep_season e" using False by (metis imageI)
    have "\<forall>p \<in> set (m @ [(ep_season e, [e])]).
                       snd p = filter (\<lambda>x. ep_season x = fst p) (eps @ [e])"
    proof
      fix p assume "p \<in> set (m @ [(ep_season e, [e])])"
      then consider "p \<in> set m" | "p = (ep_season e, [e])" by auto
      then show "snd p = filter (\<lambda>x. ep_season x = fst p) (eps @ [e])"
      proof cases
        case 1
        with c ne have "snd p = filter (\<lambda>e. ep_season e = fst p) eps" and "ep_season e \<noteq> fst p"
          by metis+
        then show ?thesis by simp
      next
        case 2
        then show ?thesis by (simp add: emp)
      qed
    qed
    moreover have "distinct (map fst (m @ [(ep_season e, [e])]))"
      using d False by simp
    moreover have "fst ` set (m @ [(ep_season e, [e])]) = ep_season ` set (eps @ [e])"
      using k by simp
    ultimately show ?thesis
      unfolding seasonMap_inv_def eq by blast
  qed
qed

lemma seasonMap_inv_foldl: "seasonMap_inv (foldl seasonMap_push [] eps) eps"
proof (induction eps rule: rev_induct)
  case Nil
  then show ?case by (simp add: seasonMap_inv_def)
next
  case (snoc e eps)
  then show ?case by (simp add: seasonMap_inv_push)
qed


lemma insort_key_fst_map:
  "insort_key fst (k, g k) (map (\<lambda>k. (k, g k)) ks) = map (\<lambda>k. (k, g k)) (insort k ks)"
  by (induction ks) simp_all

lemma sort_key_fst_map:
  "sort_key fst (map (\<lambda>k. (k, g k)) ks) = map (\<lambda>k. (k, g k)) (sort ks)"
  by (induction ks) (simp_all add: insort_key_fst_map)

lemma seasonMap_sorted:
  "sort_key fst (foldl seasonMap_push [] eps) =
   map (\<lambda>n. (n, filter (\<lambda>e. ep_season e = n) eps)) (sorted_list_of_set (ep_season ` set eps))"
proof -
  let ?m = "foldl seasonMap_push [] eps"
  let ?g = "\<lambda>n. filter (\<lambda>e. ep_season e = n) eps"
  have inv: "seasonMap_inv ?m eps" by (rule seasonMap_inv_foldl)
  then have d: "distinct (map fst ?m)" and k: "set (map fst ?m) = ep_season ` set eps"
    and c: "\<forall>p \<in> set ?m. snd p = ?g (fst p)"
    by (simp_all add: seasonMap_inv_def)
  have "map (\<lambda>p. (fst p, ?g (fst p))) ?m = ?m"
    using c by (intro map_idI) (simp add: prod_eq_iff)
  then have m: "?m = map (\<lambda>k. (k, ?g k)) (map fst ?m)"
    by (simp add: comp_def)
  have s: "sort (map fst ?m) = sorted_list_of_set (ep_season ` set eps)"
    using d k by (metis distinct_remdups_id sorted_list_of_set_sort_remdups)
  have "sort_key fst ?m = sort_key fst (map (\<lambda>k. (k, ?g k)) (map fst ?m))"
    using m by simp
  also have "\<dots> = map (\<lambda>k. (k, ?g k)) (sort (map fst ?m))"
    by (rule sort_key_fst_map)
  finally show ?thesis by (simp add: s)
qed

lemma organize_closed_form:
  "organizeEpisodesIntoSeasons eps =
   map (seasonOf eps) (sorted_list_of_set (ep_season ` set eps))"
  by (simp add: organizeEpisodesIntoSeasons_def seasonMap_sorted seasonOf_def comp_def)

lemma sn_number_seasonOf: "sn_number (seasonOf eps n) = n"
  by (simp add: seasonOf_def toSeason_def)

lemma numbers_organize:
  "map sn_number (organizeEpisodesIntoSeasons eps) = sorted_list_of_set (ep_season ` set eps)"
  by (simp add: organize_closed_form comp_def sn_number_seasonOf)

text \<open>
  C8 (as the code has it). For every episode list, in any order,
  \<^verbatim>\<open>organizeEpisodesIntoSeasons\<close> returns the seasons in strictly ascending order of
  season number, one for each season number that occurs in the input. Each season
  holds exactly the input episodes of that season, sorted by episode number
  (stably), \<^verbatim>\<open>totalEpisodes\<close> is their count and \<^verbatim>\<open>watchedEpisodes\<close> the count of
  the watched ones. No episode is dropped: every episode, whatever its season
  number, is in the season that carries that very number.
\<close>

theorem seasons_by_number:
  "sorted_wrt (<) (map sn_number (organizeEpisodesIntoSeasons eps)) \<and>
   set (map sn_number (organizeEpisodesIntoSeasons eps)) = ep_season ` set eps \<and>
   (\<forall>s \<in> set (organizeEpisodesIntoSeasons eps).
      sn_episodes s = sort_key ep_episode (filter (\<lambda>e. ep_season e = sn_number s) eps) \<and>
      sorted (map ep_episode (sn_episodes s)) \<and>
      mset (sn_episodes s) = mset (filter (\<lambda>e. ep_season e = sn_number s) eps) \<and>
      sn_totalEpisodes s = length (filter (\<lambda>e. ep_season e = sn_number s) eps) \<and>
      sn_watchedEpisodes s = length (filter (\<lambda>e. ep_season e = sn_number s \<and> ep_watched e) eps)) \<and>
   (\<forall>e \<in> set eps. \<exists>s \<in> set (organizeEpisodesIntoSeasons eps).
      sn_number s = ep_season e \<and> e \<in> set (sn_episodes s))"
proof -
  let ?S = "ep_season ` set eps"
  have fin: "finite ?S" by simp
  have 1: "sorted_wrt (<) (map sn_number (organizeEpisodesIntoSeasons eps))"
    unfolding numbers_organize using fin by (simp add: strict_sorted_list_of_set)
  have 2: "set (map sn_number (organizeEpisodesIntoSeasons eps)) = ?S"
    unfolding numbers_organize using fin by simp
  have 3: "sn_episodes s = sort_key ep_episode (filter (\<lambda>e. ep_season e = sn_number s) eps) \<and>
      sorted (map ep_episode (sn_episodes s)) \<and>
      mset (sn_episodes s) = mset (filter (\<lambda>e. ep_season e = sn_number s) eps) \<and>
      sn_totalEpisodes s = length (filter (\<lambda>e. ep_season e = sn_number s) eps) \<and>
      sn_watchedEpisodes s = length (filter (\<lambda>e. ep_season e = sn_number s \<and> ep_watched e) eps)"
    if "s \<in> set (organizeEpisodesIntoSeasons eps)" for s
  proof -
    from that obtain n where s: "s = seasonOf eps n"
      unfolding organize_closed_form by auto
    show ?thesis
      by (simp add: s seasonOf_def toSeason_def conj_commute)
  qed
  have 4: "\<exists>s \<in> set (organizeEpisodesIntoSeasons eps). sn_number s = ep_season e \<and> e \<in> set (sn_episodes s)"
    if "e \<in> set eps" for e
  proof -
    have "seasonOf eps (ep_season e) \<in> set (organizeEpisodesIntoSeasons eps)"
      unfolding organize_closed_form using that fin by simp
    moreover have "e \<in> set (sn_episodes (seasonOf eps (ep_season e)))"
      using that by (simp add: seasonOf_def toSeason_def)
    ultimately show ?thesis using sn_number_seasonOf by blast
  qed
  show ?thesis using 1 2 3 4 by blast
qed

text \<open>
  There is no reserved bucket for season numbers outside the data model's range
  (at least 1): two episodes with the season numbers 0 and -1 come out as two
  seasons numbered -1 and 0.
\<close>

theorem unknown_bucket_counterexample:
  "map sn_number (organizeEpisodesIntoSeasons
      [ex_episode 1 0 1 ''2024-01-01'' False, ex_episode 2 (- 1) 1 ''2024-01-01'' True]) = [- 1, 0]"
  by (simp add: organizeEpisodesIntoSeasons_def toSeason_def ex_episode_def)

theorem seasons_by_number_witness:
  "organizeEpisodesIntoSeasons
      [ex_episode 3 2 1 ''2024-03-01'' False, ex_episode 2 1 2 ''2024-02-01'' False,
       ex_episode 1 1 1 ''2024-01-01'' True] =
     [\<lparr> sn_number = 1,
        sn_episodes = [ex_episode 1 1 1 ''2024-01-01'' True, ex_episode 2 1 2 ''2024-02-01'' False],
        sn_totalEpisodes = 2, sn_watchedEpisodes = 1 \<rparr>,
      \<lparr> sn_number = 2, sn_episodes = [ex_episode 3 2 1 ''2024-03-01'' False],
        sn_totalEpisodes = 1, sn_watchedEpisodes = 0 \<rparr>] \<and>
   sorted_wrt (<) (map sn_number (organizeEpisodesIntoSeasons
      [ex_episode 3 2 1 ''2024-03-01'' False, ex_episode 2 1 2 ''2024-02-01'' False,
       ex_episode 1 1 1 ''2024-01-01'' True]))"
  using seasons_by_number[of "[ex_episode 3 2 1 ''2024-03-01'' False, ex_episode 2 1 2 ''2024-02-01'' False,
       ex_episode 1 1 1 ''2024-01-01'' True]"]
  by (simp add: organizeEpisodesIntoSeasons_def toSeason_def ex_episode_def)

section \<open>Next-episode resolution\<close>


lemma sh_nextEpisode_updateShowFromFresh:
  "sh_nextEpisode (updateShowFromFresh env sh F) =
   resolveNextEpisode env (sh_episodes (updateShowFromFresh env sh F))"
  by (simp add: updateShowFromFresh_def Let_def)

lemma hasAired_iff: "hasAired env d \<longleftrightarrow> (\<exists>t. parseDate env d = Some t \<and> t \<le> now env)"
  by (simp add: hasAired_def split: option.splits)

lemma resolveNextEpisode_None:
  "resolveNextEpisode env eps = None \<longleftrightarrow>
   (\<forall>e \<in> set eps. ep_watched e \<or> \<not> hasAired env (ep_airDate e))"
  by (auto simp: resolveNextEpisode_def nextUnwatched_def find_None_iff)

lemma resolveNextEpisode_Some:
  "resolveNextEpisode env eps = Some ne \<longleftrightarrow>
   (\<exists>i < length eps. ne = toNextEpisode (eps ! i) \<and> \<not> ep_watched (eps ! i) \<and>
      hasAired env (ep_airDate (eps ! i)) \<and>
      (\<forall>j < i. ep_watched (eps ! j) \<or> \<not> hasAired env (ep_airDate (eps ! j))))"
  unfolding resolveNextEpisode_def nextUnwatched_def map_option_eq_Some find_Some_iff
  by blast

text \<open>
  C2 (as the code has it). The next episode of a refreshed show is the snapshot of
  the first episode, in the order of the episode list, that is unwatched and whose
  air date parses to an instant not after now. It is null exactly when no episode
  is unwatched and aired, future episodes notwithstanding. An episode whose air
  date does not parse (a missing date) is never selected. The order of air dates
  plays no part.
\<close>

theorem next_episode_first_match:
  "(sh_nextEpisode (updateShowFromFresh env sh F) = None \<longleftrightarrow>
      (\<forall>e \<in> set (sh_episodes (updateShowFromFresh env sh F)).
         ep_watched e \<or> \<not> (\<exists>t. parseDate env (ep_airDate e) = Some t \<and> t \<le> now env))) \<and>
   (\<forall>ne. sh_nextEpisode (updateShowFromFresh env sh F) = Some ne \<longleftrightarrow>
      (\<exists>i < length (sh_episodes (updateShowFromFresh env sh F)).
         ne = toNextEpisode (sh_episodes (updateShowFromFresh env sh F) ! i) \<and>
         \<not> ep_watched (sh_episodes (updateShowFromFresh env sh F) ! i) \<and>
         (\<exists>t. parseDate env (ep_airDate (sh_episodes (updateShowFromFresh env sh F) ! i)) = Some t
              \<and> t \<le> now env) \<and>
         (\<forall>j < i. ep_watched (sh_episodes (updateShowFromFresh env sh F) ! j) \<or>
            \<not> (\<exists>t. parseDate env (ep_airDate (sh_episodes (updateShowFromFresh env sh F) ! j)) = Some t
                    \<and> t \<le> now env))))"
  unfolding sh_nextEpisode_updateShowFromFresh hasAired_iff[symmetric]
  using resolveNextEpisode_None resolveNextEpisode_Some by blast

text \<open>The example parser on the strings the examples use.\<close>

lemma ex_parse [simp]:
  "ex_dates ''2024-01-01'' = Some 1704067200000"
  "ex_dates ''2024-02-01'' = Some 1706745600000"
  "ex_dates ''2024-03-01'' = Some 1709251200000"
  "ex_dates [] = None"
  by (simp_all add: ex_dates_def)

text \<open>
  The source lists an episode aired on 2024-02-01 before one aired on 2024-01-01,
  both unwatched and aired. The refresh resolves the first of the list; the
  earliest by air date is the second.
\<close>

theorem next_episode_counterexample:
  "sh_episodes (updateShowWithEpisodes ex_env
        (\<lambda>t. Response True (Some [ex_api 1 1 1 ''2024-02-01'', ex_api 2 1 2 ''2024-01-01'']))
        (ex_show ''tvmaze-1'' 1 [])) =
     [ex_episode 1 1 1 ''2024-02-01'' False, ex_episode 2 1 2 ''2024-01-01'' False] \<and>
   sh_nextEpisode (updateShowWithEpisodes ex_env
        (\<lambda>t. Response True (Some [ex_api 1 1 1 ''2024-02-01'', ex_api 2 1 2 ''2024-01-01'']))
        (ex_show ''tvmaze-1'' 1 [])) =
     Some (toNextEpisode (ex_episode 1 1 1 ''2024-02-01'' False)) \<and>
   spec_nextEpisode ex_env [ex_episode 1 1 1 ''2024-02-01'' False, ex_episode 2 1 2 ''2024-01-01'' False] =
     Some (toNextEpisode (ex_episode 2 1 2 ''2024-01-01'' False)) \<and>
   toNextEpisode (ex_episode 1 1 1 ''2024-02-01'' False) \<noteq> toNextEpisode (ex_episode 2 1 2 ''2024-01-01'' False)"
  by (simp add: updateShowWithEpisodes_def updateShowFromFresh_def fetchEpisodeList_def
      fromApiEpisode_def ex_api_def ex_show_def ex_episode_def mergeWatchState_def mergeEpisode_def
      resolveNextEpisode_def nextUnwatched_def hasAired_def ex_env_def toNextEpisode_def
      spec_nextEpisode_def spec_before_def Let_def)

theorem next_episode_first_match_witness:
  "sh_nextEpisode (updateShowFromFresh ex_env (ex_show ''tvmaze-1'' 1 [ex_episode 1 1 1 ''2024-01-01'' True])
      [ex_episode 1 1 1 ''2024-01-01'' False, ex_episode 2 1 2 ''2024-02-01'' False,
       ex_episode 3 1 3 ''2024-03-01'' False])
   = Some (toNextEpisode (ex_episode 2 1 2 ''2024-02-01'' False)) \<and>
   sh_nextEpisode (updateShowFromFresh ex_env (ex_show ''tvmaze-1'' 1 [])
      [ex_episode 1 1 1 [] False, ex_episode 3 1 3 ''2024-03-01'' False]) = None"
proof -
  let ?s1 = "updateShowFromFresh ex_env (ex_show ''tvmaze-1'' 1 [ex_episode 1 1 1 ''2024-01-01'' True])
      [ex_episode 1 1 1 ''2024-01-01'' False, ex_episode 2 1 2 ''2024-02-01'' False,
       ex_episode 3 1 3 ''2024-03-01'' False]"
  let ?s2 = "updateShowFromFresh ex_env (ex_show ''tvmaze-1'' 1 [])
      [ex_episode 1 1 1 [] False, ex_episode 3 1 3 ''2024-03-01'' False]"
  have e1: "sh_episodes ?s1 = [ex_episode 1 1 1 ''2024-01-01'' True, ex_episode 2 1 2 ''2024-02-01'' False,
       ex_episode 3 1 3 ''2024-03-01'' False]"
    by (simp add: sh_episodes_updateShowFromFresh mergeWatchState_def mergeEpisode_def
        ex_show_def ex_episode_def orUndefined_def)
  have e2: "sh_episodes ?s2 = [ex_episode 1 1 1 [] False, ex_episode 3 1 3 ''2024-03-01'' False]"
    by (simp add: sh_episodes_updateShowFromFresh mergeWatchState_def mergeEpisode_def
        ex_show_def ex_episode_def orUndefined_def)
  have "\<exists>i<length (sh_episodes ?s1).
          toNextEpisode (ex_episode 2 1 2 ''2024-02-01'' False) = toNextEpisode (sh_episodes ?s1 ! i) \<and>
         \<not> ep_watched (sh_episodes ?s1 ! i) \<and>
         (\<exists>t. parseDate ex_env (ep_airDate (sh_episodes ?s1 ! i)) = Some t \<and> t \<le> now ex_env) \<and>
         (\<forall>j < i. ep_watched (sh_episodes ?s1 ! j) \<or>
            \<not> (\<exists>t. parseDate ex_env (ep_airDate (sh_episodes ?s1 ! j)) = Some t \<and> t \<le> now ex_env))"
    unfolding e1 by (rule exI[of _ 1]) (simp add: ex_episode_def ex_env_def)
  then have a: "sh_nextEpisode ?s1 = Some (toNextEpisode (ex_episode 2 1 2 ''2024-02-01'' False))"
    using next_episode_first_match[of ex_env "ex_show ''tvmaze-1'' 1 [ex_episode 1 1 1 ''2024-01-01'' True]"
        "[ex_episode 1 1 1 ''2024-01-01'' False, ex_episode 2 1 2 ''2024-02-01'' False,
       ex_episode 3 1 3 ''2024-03-01'' False]"] by blast
  have "\<forall>e \<in> set (sh_episodes ?s2).
         ep_watched e \<or> \<not> (\<exists>t. parseDate ex_env (ep_airDate e) = Some t \<and> t \<le> now ex_env)"
    unfolding e2 by (simp add: ex_episode_def ex_env_def)
  then have b: "sh_nextEpisode ?s2 = None"
    using next_episode_first_match[of ex_env "ex_show ''tvmaze-1'' 1 []"
        "[ex_episode 1 1 1 [] False, ex_episode 3 1 3 ''2024-03-01'' False]"] by blast
  show ?thesis using a b by simp
qed

section \<open>Targeted mutations of the watchlist\<close>

lemma find_show_None: "find (\<lambda>s. sh_id s = showId) wl = None \<longleftrightarrow> showId \<notin> sh_id ` set wl"
  by (induction wl) auto

lemma find_show_Some:
  "find (\<lambda>s. sh_id s = showId) wl = Some cur \<Longrightarrow> cur \<in> set wl \<and> sh_id cur = showId"
  by (induction wl) (auto split: if_splits)

lemma sh_id_withUpdatedEpisodes [simp]: "sh_id (withUpdatedEpisodes env cur eps) = sh_id cur"
  by (simp add: withUpdatedEpisodes_def Let_def)

lemma sh_episodes_withUpdatedEpisodes [simp]:
  "sh_episodes (withUpdatedEpisodes env cur eps) = eps"
  by (simp add: withUpdatedEpisodes_def Let_def)

lemma length_replaceShow [simp]: "length (replaceShow wl showId u) = length wl"
  by (simp add: replaceShow_def)

lemma nth_replaceShow:
  "i < length wl \<Longrightarrow> replaceShow wl showId u ! i = (if sh_id (wl ! i) = showId then u else wl ! i)"
  by (simp add: replaceShow_def)

lemma set_replaceShow: "s \<in> set (replaceShow wl showId u) \<Longrightarrow> s = u \<or> (s \<in> set wl \<and> sh_id s \<noteq> showId)"
  by (auto simp: replaceShow_def split: if_splits)

lemma ids_replaceShow: "sh_id u = showId \<Longrightarrow> map sh_id (replaceShow wl showId u) = map sh_id wl"
  by (induction wl) (simp_all add: replaceShow_def)

lemma replaceShow_absent: "showId \<notin> sh_id ` set wl \<Longrightarrow> replaceShow wl showId u = wl"
  unfolding replaceShow_def by (intro map_idI) (metis imageI)

lemma markEpisode_eq:
  "markEpisode env w e =
     e\<lparr> ep_watched := (w \<and> hasAired env (ep_airDate e)),
        ep_watchedDate := (if w \<and> hasAired env (ep_airDate e) then Some (nowISO env) else None) \<rparr>"
  by (simp add: markEpisode_def Let_def)

lemma ex_show_sel [simp]:
  "sh_id (ex_show i t eps) = i" "sh_episodes (ex_show i t eps) = eps"
  "sh_tvmazeId (ex_show i t eps) = t" "sh_lastUpdated (ex_show i t eps) = None"
  by (simp_all add: ex_show_def)

lemma ex_aired [simp]:
  "hasAired ex_env ''2024-01-01''" "hasAired ex_env ''2024-02-01''"
  "\<not> hasAired ex_env ''2024-03-01''" "\<not> hasAired ex_env []"
  by (simp_all add: hasAired_def ex_env_def ex_dates_def)

text \<open>
  C5. Bulk marking touches aired episodes only. Let \<open>cur\<close> be the tracked show with
  identifier \<open>showId\<close>. After \<^verbatim>\<open>markSeasonWatched\<close> with flag \<open>w\<close>, the show has
  the same number of episodes; an episode of season \<open>n\<close> is watched exactly when
  \<open>w\<close> is true and its air date is not after now (so marking watched leaves an
  unaired episode unwatched, and unmarking clears every episode of the season),
  its \<^verbatim>\<open>watchedDate\<close> is now or undefined accordingly, and its other fields are
  kept; an episode of another season is untouched. \<^verbatim>\<open>markSeriesWatched\<close> does the
  same to every episode of the show.
\<close>

theorem aired_only_bulk_marking:
  assumes "find (\<lambda>s. sh_id s = showId) wl = Some cur"
  shows "(\<forall>s' \<in> set (markSeasonWatched env wl showId n w). sh_id s' = showId \<longrightarrow>
            length (sh_episodes s') = length (sh_episodes cur) \<and>
            (\<forall>i < length (sh_episodes cur).
               sh_episodes s' ! i =
                 (if ep_season (sh_episodes cur ! i) = n
                  then (sh_episodes cur ! i)
                         \<lparr> ep_watched := (w \<and> hasAired env (ep_airDate (sh_episodes cur ! i))),
                           ep_watchedDate :=
                             (if w \<and> hasAired env (ep_airDate (sh_episodes cur ! i))
                              then Some (nowISO env) else None) \<rparr>
                  else sh_episodes cur ! i))) \<and>
         (\<forall>s' \<in> set (markSeriesWatched env wl showId w). sh_id s' = showId \<longrightarrow>
            length (sh_episodes s') = length (sh_episodes cur) \<and>
            (\<forall>i < length (sh_episodes cur).
               sh_episodes s' ! i =
                 (sh_episodes cur ! i)
                   \<lparr> ep_watched := (w \<and> hasAired env (ep_airDate (sh_episodes cur ! i))),
                     ep_watchedDate :=
                       (if w \<and> hasAired env (ep_airDate (sh_episodes cur ! i))
                        then Some (nowISO env) else None) \<rparr>))"
proof -
  let ?season = "map (\<lambda>episode. if ep_season episode = n then markEpisode env w episode else episode)
                     (sh_episodes cur)"
  let ?series = "map (markEpisode env w) (sh_episodes cur)"
  have a: "sh_episodes s' = ?season"
    if "s' \<in> set (markSeasonWatched env wl showId n w)" "sh_id s' = showId" for s'
  proof -
    from that(1) have "s' \<in> set (replaceShow wl showId (withUpdatedEpisodes env cur ?season))"
      using assms by (simp add: markSeasonWatched_def Let_def)
    from set_replaceShow[OF this] that(2) show ?thesis by auto
  qed
  have b: "sh_episodes s' = ?series"
    if "s' \<in> set (markSeriesWatched env wl showId w)" "sh_id s' = showId" for s'
  proof -
    from that(1) have "s' \<in> set (replaceShow wl showId
        ((withUpdatedEpisodes env cur ?series)\<lparr> sh_watchedDate := (if w then Some (nowISO env) else None) \<rparr>))"
      using assms by (simp add: markSeriesWatched_def Let_def)
    from set_replaceShow[OF this] that(2) show ?thesis by auto
  qed
  show ?thesis
  proof (intro conjI ballI impI)
    fix s' assume s: "s' \<in> set (markSeasonWatched env wl showId n w)" "sh_id s' = showId"
    show "length (sh_episodes s') = length (sh_episodes cur)" by (simp add: a[OF s])
    show "\<forall>i < length (sh_episodes cur).
               sh_episodes s' ! i =
                 (if ep_season (sh_episodes cur ! i) = n
                  then (sh_episodes cur ! i)
                         \<lparr> ep_watched := (w \<and> hasAired env (ep_airDate (sh_episodes cur ! i))),
                           ep_watchedDate :=
                             (if w \<and> hasAired env (ep_airDate (sh_episodes cur ! i))
                              then Some (nowISO env) else None) \<rparr>
                  else sh_episodes cur ! i)"
      by (simp add: a[OF s] markEpisode_eq)
  next
    fix s' assume s: "s' \<in> set (markSeriesWatched env wl showId w)" "sh_id s' = showId"
    show "length (sh_episodes s') = length (sh_episodes cur)" by (simp add: b[OF s])
    show "\<forall>i < length (sh_episodes cur).
               sh_episodes s' ! i =
                 (sh_episodes cur ! i)
                   \<lparr> ep_watched := (w \<and> hasAired env (ep_airDate (sh_episodes cur ! i))),
                     ep_watchedDate :=
                       (if w \<and> hasAired env (ep_airDate (sh_episodes cur ! i))
                        then Some (nowISO env) else None) \<rparr>"
      by (simp add: b[OF s] markEpisode_eq)
  qed
qed

theorem aired_only_bulk_marking_witness:
  "find (\<lambda>s. sh_id s = ''tvmaze-1'')
        [ex_show ''tvmaze-1'' 1 [ex_episode 1 1 1 ''2024-02-01'' False, ex_episode 2 1 2 ''2024-03-01'' False]]
     = Some (ex_show ''tvmaze-1'' 1 [ex_episode 1 1 1 ''2024-02-01'' False, ex_episode 2 1 2 ''2024-03-01'' False]) \<and>
   map ep_watched (sh_episodes (hd (markSeasonWatched ex_env
        [ex_show ''tvmaze-1'' 1 [ex_episode 1 1 1 ''2024-02-01'' False, ex_episode 2 1 2 ''2024-03-01'' False]]
        ''tvmaze-1'' 1 True))) = [True, False] \<and>
   map ep_watched (sh_episodes (hd (markSeriesWatched ex_env
        [ex_show ''tvmaze-1'' 1 [ex_episode 1 1 1 ''2024-02-01'' False, ex_episode 2 1 2 ''2024-03-01'' False]]
        ''tvmaze-1'' True))) = [True, False]"
proof -
  let ?cur = "ex_show ''tvmaze-1'' 1 [ex_episode 1 1 1 ''2024-02-01'' False, ex_episode 2 1 2 ''2024-03-01'' False]"
  have f: "find (\<lambda>s. sh_id s = ''tvmaze-1'') [?cur] = Some ?cur"
    by simp
  let ?a = "hd (markSeasonWatched ex_env [?cur] ''tvmaze-1'' 1 True)"
  let ?b = "hd (markSeriesWatched ex_env [?cur] ''tvmaze-1'' True)"
  have ma: "?a \<in> set (markSeasonWatched ex_env [?cur] ''tvmaze-1'' 1 True)" "sh_id ?a = ''tvmaze-1''"
    by (simp_all add: markSeasonWatched_def replaceShow_def Let_def)
  have mb: "?b \<in> set (markSeriesWatched ex_env [?cur] ''tvmaze-1'' True)" "sh_id ?b = ''tvmaze-1''"
    by (simp_all add: markSeriesWatched_def replaceShow_def Let_def)
  note inst = aired_only_bulk_marking[OF f, of ex_env 1 True]
  from inst ma have la: "length (sh_episodes ?a) = 2"
    and na: "\<forall>i<2. sh_episodes ?a ! i =
                 (if ep_season ([ex_episode 1 1 1 ''2024-02-01'' False, ex_episode 2 1 2 ''2024-03-01'' False] ! i) = 1
                  then ([ex_episode 1 1 1 ''2024-02-01'' False, ex_episode 2 1 2 ''2024-03-01'' False] ! i)
                         \<lparr> ep_watched := (True \<and> hasAired ex_env (ep_airDate ([ex_episode 1 1 1 ''2024-02-01'' False, ex_episode 2 1 2 ''2024-03-01'' False] ! i))),
                           ep_watchedDate :=
                             (if True \<and> hasAired ex_env (ep_airDate ([ex_episode 1 1 1 ''2024-02-01'' False, ex_episode 2 1 2 ''2024-03-01'' False] ! i))
                              then Some (nowISO ex_env) else None) \<rparr>
                  else [ex_episode 1 1 1 ''2024-02-01'' False, ex_episode 2 1 2 ''2024-03-01'' False] ! i)"
    by (metis ex_show_sel(2) length_Cons list.size(3) numeral_2_eq_2)+
  from inst mb have lb: "length (sh_episodes ?b) = 2"
    and nb: "\<forall>i<2. sh_episodes ?b ! i =
                 ([ex_episode 1 1 1 ''2024-02-01'' False, ex_episode 2 1 2 ''2024-03-01'' False] ! i)
                         \<lparr> ep_watched := (True \<and> hasAired ex_env (ep_airDate ([ex_episode 1 1 1 ''2024-02-01'' False, ex_episode 2 1 2 ''2024-03-01'' False] ! i))),
                           ep_watchedDate :=
                             (if True \<and> hasAired ex_env (ep_airDate ([ex_episode 1 1 1 ''2024-02-01'' False, ex_episode 2 1 2 ''2024-03-01'' False] ! i))
                              then Some (nowISO ex_env) else None) \<rparr>"
    by (metis ex_show_sel(2) length_Cons list.size(3) numeral_2_eq_2)+
  have a0: "ep_watched (sh_episodes ?a ! 0)" and a1: "\<not> ep_watched (sh_episodes ?a ! 1)"
    using na by (simp_all add: ex_episode_def)
  have b0: "ep_watched (sh_episodes ?b ! 0)" and b1: "\<not> ep_watched (sh_episodes ?b ! 1)"
    using nb by (simp_all add: ex_episode_def)
  have two: "map f xs = [f (xs ! 0), f (xs ! 1)]" if "length xs = 2" for f :: "Episode \<Rightarrow> bool" and xs
    using that by (cases xs; cases "tl xs") auto
  show ?thesis using f two[OF la] two[OF lb] a0 a1 b0 b1 by simp
qed

text \<open>
  C9. Each of \<^verbatim>\<open>toggleEpisodeWatched\<close>, \<^verbatim>\<open>markSeasonWatched\<close> and
  \<^verbatim>\<open>markSeriesWatched\<close> keeps the length of the watchlist and leaves every show
  whose identifier differs from \<open>showId\<close> as it was, at its position; when no
  tracked show has the identifier, the watchlist is unchanged.
\<close>

theorem targeted_mutations_frame:
  assumes "wl' = toggleEpisodeWatched env wl showId episodeId \<or>
           wl' = markSeasonWatched env wl showId n w \<or>
           wl' = markSeriesWatched env wl showId w"
  shows "length wl' = length wl \<and>
         (\<forall>i < length wl. sh_id (wl ! i) \<noteq> showId \<longrightarrow> wl' ! i = wl ! i) \<and>
         (showId \<notin> sh_id ` set wl \<longrightarrow> wl' = wl)"
proof (cases "find (\<lambda>s. sh_id s = showId) wl")
  case None
  then have "wl' = wl"
    using assms by (auto simp: toggleEpisodeWatched_def markSeasonWatched_def markSeriesWatched_def)
  then show ?thesis by simp
next
  case (Some cur)
  then obtain u where "wl' = replaceShow wl showId u"
    using assms
    by (auto simp: toggleEpisodeWatched_def markSeasonWatched_def markSeriesWatched_def Let_def)
  then show ?thesis
    by (simp add: nth_replaceShow replaceShow_absent)
qed
theorem targeted_mutations_frame_witness:
  "sh_id ([ex_show ''tvmaze-1'' 1 [ex_episode 1 1 1 ''2024-02-01'' False], ex_show ''tvmaze-2'' 2 []] ! 1) \<noteq> ''tvmaze-1'' \<and>
   toggleEpisodeWatched ex_env
      [ex_show ''tvmaze-1'' 1 [ex_episode 1 1 1 ''2024-02-01'' False], ex_show ''tvmaze-2'' 2 []]
      ''tvmaze-1'' 1 ! 1 = ex_show ''tvmaze-2'' 2 [] \<and>
   ''tvmaze-9'' \<notin> sh_id ` set [ex_show ''tvmaze-1'' 1 [ex_episode 1 1 1 ''2024-02-01'' False], ex_show ''tvmaze-2'' 2 []] \<and>
   markSeriesWatched ex_env
      [ex_show ''tvmaze-1'' 1 [ex_episode 1 1 1 ''2024-02-01'' False], ex_show ''tvmaze-2'' 2 []]
      ''tvmaze-9'' True =
      [ex_show ''tvmaze-1'' 1 [ex_episode 1 1 1 ''2024-02-01'' False], ex_show ''tvmaze-2'' 2 []]"
  using targeted_mutations_frame[where wl = "[ex_show ''tvmaze-1'' 1 [ex_episode 1 1 1 ''2024-02-01'' False], ex_show ''tvmaze-2'' 2 []]"
      and showId = "''tvmaze-1''" and episodeId = 1 and env = ex_env
      and wl' = "toggleEpisodeWatched ex_env
      [ex_show ''tvmaze-1'' 1 [ex_episode 1 1 1 ''2024-02-01'' False], ex_show ''tvmaze-2'' 2 []]
      ''tvmaze-1'' 1"]
    targeted_mutations_frame[where wl = "[ex_show ''tvmaze-1'' 1 [ex_episode 1 1 1 ''2024-02-01'' False], ex_show ''tvmaze-2'' 2 []]"
      and showId = "''tvmaze-9''" and w = True and env = ex_env
      and wl' = "markSeriesWatched ex_env
      [ex_show ''tvmaze-1'' 1 [ex_episode 1 1 1 ''2024-02-01'' False], ex_show ''tvmaze-2'' 2 []]
      ''tvmaze-9'' True"]
  by simp
section \<open>Invariants of the reachable watchlists\<close>

lemma sh_id_updateShowWithEpisodes [simp]: "sh_id (updateShowWithEpisodes env net s) = sh_id s"
  by (simp add: updateShowWithEpisodes_def updateShowFromFresh_def Let_def)

lemma refresh_ok:
  "countersMatch (updateShowWithEpisodes env net s) \<and> watchedInvariant (updateShowWithEpisodes env net s)"
  by (auto simp: updateShowWithEpisodes_def updateShowFromFresh_def Let_def countersMatch_def
      watchedInvariant_def)

lemma withUpdatedEpisodes_ok:
  assumes "countersMatch cur" "length eps = length (sh_episodes cur)"
  shows "countersMatch (withUpdatedEpisodes env cur eps) \<and> watchedInvariant (withUpdatedEpisodes env cur eps)"
  using assms
  by (auto simp: withUpdatedEpisodes_def Let_def countersMatch_def watchedInvariant_def)

lemma watchedDate_ok:
  "countersMatch (s\<lparr> sh_watchedDate := d \<rparr>) = countersMatch s"
  "watchedInvariant (s\<lparr> sh_watchedDate := d \<rparr>) = watchedInvariant s"
  by (simp_all add: countersMatch_def watchedInvariant_def)

lemma replaceShow_ok:
  "\<forall>s \<in> set wl. showOk s \<Longrightarrow> showOk u \<Longrightarrow> \<forall>s \<in> set (replaceShow wl showId u). showOk s"
  using set_replaceShow by blast

lemma toggle_ok:
  assumes "\<forall>s \<in> set wl. showOk s"
  shows "\<forall>s \<in> set (toggleEpisodeWatched env wl showId episodeId). showOk s"
proof (cases "find (\<lambda>s. sh_id s = showId) wl")
  case None
  then show ?thesis using assms by (simp add: toggleEpisodeWatched_def)
next
  case (Some cur)
  then have "showOk cur" using assms find_show_Some by blast
  then have "countersMatch cur" by (simp add: showOk_def)
  then have "showOk (withUpdatedEpisodes env cur (map (toggleEpisode env episodeId) (sh_episodes cur)))"
    unfolding showOk_def by (intro withUpdatedEpisodes_ok) simp_all
  with assms have "\<forall>s \<in> set (replaceShow wl showId
      (withUpdatedEpisodes env cur (map (toggleEpisode env episodeId) (sh_episodes cur)))). showOk s"
    by (rule replaceShow_ok)
  then show ?thesis unfolding toggleEpisodeWatched_def Some Let_def by simp
qed

lemma season_ok:
  assumes "\<forall>s \<in> set wl. showOk s"
  shows "\<forall>s \<in> set (markSeasonWatched env wl showId n w). showOk s"
proof (cases "find (\<lambda>s. sh_id s = showId) wl")
  case None
  then show ?thesis using assms by (simp add: markSeasonWatched_def)
next
  case (Some cur)
  then have "showOk cur" using assms find_show_Some by blast
  then have "countersMatch cur" by (simp add: showOk_def)
  then have "showOk (withUpdatedEpisodes env cur
      (map (\<lambda>episode. if ep_season episode = n then markEpisode env w episode else episode) (sh_episodes cur)))"
    unfolding showOk_def by (intro withUpdatedEpisodes_ok) simp_all
  with assms have "\<forall>s \<in> set (replaceShow wl showId (withUpdatedEpisodes env cur
      (map (\<lambda>episode. if ep_season episode = n then markEpisode env w episode else episode) (sh_episodes cur)))).
      showOk s"
    by (rule replaceShow_ok)
  then show ?thesis unfolding markSeasonWatched_def Some Let_def by simp
qed

lemma series_ok:
  assumes "\<forall>s \<in> set wl. showOk s"
  shows "\<forall>s \<in> set (markSeriesWatched env wl showId w). showOk s"
proof (cases "find (\<lambda>s. sh_id s = showId) wl")
  case None
  then show ?thesis using assms by (simp add: markSeriesWatched_def)
next
  case (Some cur)
  then have "showOk cur" using assms find_show_Some by blast
  then have "countersMatch cur" by (simp add: showOk_def)
  then have "showOk ((withUpdatedEpisodes env cur (map (markEpisode env w) (sh_episodes cur)))
                       \<lparr> sh_watchedDate := (if w then Some (nowISO env) else None) \<rparr>)"
    unfolding showOk_def watchedDate_ok by (intro withUpdatedEpisodes_ok) simp_all
  with assms have "\<forall>s \<in> set (replaceShow wl showId
      ((withUpdatedEpisodes env cur (map (markEpisode env w) (sh_episodes cur)))
         \<lparr> sh_watchedDate := (if w then Some (nowISO env) else None) \<rparr>)). showOk s"
    by (rule replaceShow_ok)
  then show ?thesis unfolding markSeriesWatched_def Some Let_def by simp
qed

lemma newItem_ok: "showOk (newItem env item)"
  by (simp add: showOk_def newItem_def countersMatch_def watchedInvariant_def)

lemma add_ok: "\<forall>s \<in> set wl. showOk s \<Longrightarrow> \<forall>s \<in> set (addToWatchlist env wl item). showOk s"
  by (simp add: addToWatchlist_def newItem_ok)

lemma loaded_ok:
  "\<forall>s \<in> set wl. showOk s \<Longrightarrow> \<forall>s \<in> set (addToWatchlist_loaded env net wl item). showOk s"
  using refresh_ok by (auto simp: addToWatchlist_loaded_def Let_def showOk_def)

lemma remove_ok: "\<forall>s \<in> set wl. showOk s \<Longrightarrow> \<forall>s \<in> set (removeFromWatchlist wl itemId). showOk s"
  by (simp add: removeFromWatchlist_def)

lemma expand_ok:
  "\<forall>s \<in> set wl. showOk s \<Longrightarrow> \<forall>s \<in> set (toggleSeasonExpansion wl showId n). showOk s"
  by (auto simp: toggleSeasonExpansion_def Let_def showOk_def countersMatch_def watchedInvariant_def)

lemma batch_ok:
  assumes "\<forall>s \<in> set wl. showOk s"
  shows "\<forall>s \<in> set (updateBatch env net wl batch). showOk s"
proof
  fix s assume "s \<in> set (updateBatch env net wl batch)"
  then obtain x where x: "x \<in> set wl"
    and s: "s = (case find (\<lambda>u. sh_id u = sh_id x) (map (updateShowWithEpisodes env net) batch) of
                   None \<Rightarrow> x | Some updatedShow \<Rightarrow> updatedShow)"
    by (auto simp: updateBatch_def Let_def)
  show "showOk s"
  proof (cases "find (\<lambda>u. sh_id u = sh_id x) (map (updateShowWithEpisodes env net) batch)")
    case None
    then show ?thesis using s x assms by simp
  next
    case (Some u)
    then have "u \<in> set (map (updateShowWithEpisodes env net) batch)"
      by (metis find_Some_iff nth_mem)
    then obtain b where "u = updateShowWithEpisodes env net b" by auto
    then show ?thesis using s Some refresh_ok by (simp add: showOk_def)
  qed
qed

lemma batches_ok:
  "\<forall>s \<in> set wl. showOk s \<Longrightarrow> \<forall>s \<in> set (foldl (updateBatch env net) wl bs). showOk s"
proof (induction bs arbitrary: wl)
  case Nil
  then show ?case by simp
next
  case (Cons b bs)
  from Cons.prems have "\<forall>s \<in> set (updateBatch env net wl b). showOk s" by (rule batch_ok)
  then have "\<forall>s \<in> set (foldl (updateBatch env net) (updateBatch env net wl b) bs). showOk s"
    by (rule Cons.IH)
  then show ?case by simp
qed

lemma daily_ok:
  "\<forall>s \<in> set wl. showOk s \<Longrightarrow> \<forall>s \<in> set (updateShowsDaily env net wl). showOk s"
  by (simp add: updateShowsDaily_def Let_def batches_ok)

lemma reachable_ok: "reachable wl \<Longrightarrow> \<forall>s \<in> set wl. showOk s"
proof (induction rule: reachable.induct)
  case r_empty
  then show ?case by simp
next
  case (r_add wl env item)
  from r_add.IH show ?case by (rule add_ok)
next
  case (r_loaded wl env net item)
  from r_loaded.IH show ?case by (rule loaded_ok)
next
  case (r_remove wl itemId)
  from r_remove.IH show ?case by (rule remove_ok)
next
  case (r_series wl env showId watched)
  from r_series.IH show ?case by (rule series_ok)
next
  case (r_toggle wl env showId episodeId)
  from r_toggle.IH show ?case by (rule toggle_ok)
next
  case (r_season wl env showId seasonNumber watched)
  from r_season.IH show ?case by (rule season_ok)
next
  case (r_expand wl showId seasonNumber)
  from r_expand.IH show ?case by (rule expand_ok)
next
  case (r_daily wl env net)
  from r_daily.IH show ?case by (rule daily_ok)
qed

text \<open>
  C4. The watched flag of a show is true exactly when the show has episodes and
  all are counted as watched. A refresh establishes this for any show. It holds of
  every show of every reachable watchlist, where the stored total is also the
  length of the episode list and a show without episodes is not watched. Toggling
  an episode, marking a season and marking a series keep it, together with the
  agreement of the counters with the episode list.
\<close>

theorem watched_flag_invariant:
  "watchedInvariant (updateShowWithEpisodes env net sh) \<and>
   (reachable wl \<longrightarrow>
      (\<forall>s \<in> set wl. watchedInvariant s \<and> sh_totalEpisodes s = length (sh_episodes s) \<and>
                     (sh_totalEpisodes s = 0 \<longrightarrow> sh_watched s \<noteq> Some True))) \<and>
   ((\<forall>s \<in> set wl. watchedInvariant s \<and> countersMatch s) \<longrightarrow>
      (\<forall>s \<in> set (toggleEpisodeWatched env wl showId episodeId). watchedInvariant s \<and> countersMatch s) \<and>
      (\<forall>s \<in> set (markSeasonWatched env wl showId n w). watchedInvariant s \<and> countersMatch s) \<and>
      (\<forall>s \<in> set (markSeriesWatched env wl showId w). watchedInvariant s \<and> countersMatch s))"
proof (intro conjI impI)
  show "watchedInvariant (updateShowWithEpisodes env net sh)" using refresh_ok by simp
next
  assume "reachable wl"
  then have "\<forall>s \<in> set wl. showOk s" by (rule reachable_ok)
  then show "\<forall>s \<in> set wl. watchedInvariant s \<and> sh_totalEpisodes s = length (sh_episodes s) \<and>
                     (sh_totalEpisodes s = 0 \<longrightarrow> sh_watched s \<noteq> Some True)"
    by (auto simp: showOk_def countersMatch_def watchedInvariant_def)
next
  assume "\<forall>s \<in> set wl. watchedInvariant s \<and> countersMatch s"
  then have ok: "\<forall>s \<in> set wl. showOk s" by (simp add: showOk_def)
  show "\<forall>s \<in> set (toggleEpisodeWatched env wl showId episodeId). watchedInvariant s \<and> countersMatch s"
    using toggle_ok[OF ok] by (simp add: showOk_def)
  show "\<forall>s \<in> set (markSeasonWatched env wl showId n w). watchedInvariant s \<and> countersMatch s"
    using season_ok[OF ok] by (simp add: showOk_def)
  show "\<forall>s \<in> set (markSeriesWatched env wl showId w). watchedInvariant s \<and> countersMatch s"
    using series_ok[OF ok] by (simp add: showOk_def)
qed
theorem watched_flag_invariant_witness:
  "reachable (addToWatchlist ex_env [] (ex_show ''tvmaze-1'' 1 [])) \<and>
   watchedInvariant (hd (addToWatchlist ex_env [] (ex_show ''tvmaze-1'' 1 []))) \<and>
   sh_totalEpisodes (hd (addToWatchlist ex_env [] (ex_show ''tvmaze-1'' 1 []))) = 0 \<and>
   sh_watched (hd (addToWatchlist ex_env [] (ex_show ''tvmaze-1'' 1 []))) = Some False \<and>
   watchedInvariant (ex_show ''tvmaze-1'' 1 [ex_episode 1 1 1 ''2024-01-01'' False]) \<and>
   countersMatch (ex_show ''tvmaze-1'' 1 [ex_episode 1 1 1 ''2024-01-01'' False]) \<and>
   watchedInvariant (hd (toggleEpisodeWatched ex_env
      [ex_show ''tvmaze-1'' 1 [ex_episode 1 1 1 ''2024-01-01'' False]] ''tvmaze-1'' 1)) \<and>
   sh_watched (hd (toggleEpisodeWatched ex_env
      [ex_show ''tvmaze-1'' 1 [ex_episode 1 1 1 ''2024-01-01'' False]] ''tvmaze-1'' 1)) = Some True \<and>
   sh_totalEpisodes (hd (toggleEpisodeWatched ex_env
      [ex_show ''tvmaze-1'' 1 [ex_episode 1 1 1 ''2024-01-01'' False]] ''tvmaze-1'' 1)) = 1 \<and>
   sh_watchedEpisodesCount (hd (toggleEpisodeWatched ex_env
      [ex_show ''tvmaze-1'' 1 [ex_episode 1 1 1 ''2024-01-01'' False]] ''tvmaze-1'' 1)) = 1"
proof -
  let ?one = "addToWatchlist ex_env [] (ex_show ''tvmaze-1'' 1 [])"
  let ?cur = "ex_show ''tvmaze-1'' 1 [ex_episode 1 1 1 ''2024-01-01'' False]"
  let ?t = "toggleEpisodeWatched ex_env [?cur] ''tvmaze-1'' 1"
  have r: "reachable ?one" by (intro reachable.intros)
  have one: "hd ?one \<in> set ?one" "sh_totalEpisodes (hd ?one) = 0"
    by (simp_all add: addToWatchlist_def newItem_def)
  have ok: "watchedInvariant ?cur" "countersMatch ?cur"
    by (simp_all add: watchedInvariant_def countersMatch_def ex_show_def ex_episode_def)
  then have oks: "\<forall>s \<in> set [?cur]. watchedInvariant s \<and> countersMatch s" by simp
  have t: "hd ?t \<in> set ?t"
    by (simp add: toggleEpisodeWatched_def replaceShow_def Let_def)
  have e: "sh_episodes (hd ?t) = [(ex_episode 1 1 1 ''2024-01-01'' False)
              \<lparr> ep_watched := True, ep_watchedDate := Some (nowISO ex_env) \<rparr>]"
    by (simp add: toggleEpisodeWatched_def replaceShow_def Let_def toggleEpisode_def ex_episode_def)
  from watched_flag_invariant[where wl = ?one and env = ex_env and net = "\<lambda>t. NetworkError"
      and sh = "ex_show ''tvmaze-1'' 1 []" and showId = "''tvmaze-1''" and episodeId = 1
      and n = 1 and w = True] r one
  have a: "watchedInvariant (hd ?one)" "sh_watched (hd ?one) \<noteq> Some True"
    by blast+
  have a': "sh_watched (hd ?one) = Some False"
    by (simp add: addToWatchlist_def newItem_def)
  from watched_flag_invariant[where wl = "[?cur]" and env = ex_env and net = "\<lambda>t. NetworkError"
      and sh = "ex_show ''tvmaze-1'' 1 []" and showId = "''tvmaze-1''" and episodeId = 1
      and n = 1 and w = True] oks t
  have b: "watchedInvariant (hd ?t)" "countersMatch (hd ?t)" by blast+
  from b(2) e have c: "sh_totalEpisodes (hd ?t) = 1" "sh_watchedEpisodesCount (hd ?t) = 1"
    by (simp_all add: countersMatch_def)
  with b(1) have d: "sh_watched (hd ?t) = Some True"
    by (simp add: watchedInvariant_def)
  show ?thesis using r a(1) one(2) a' ok b(1) d c by blast
qed

subsection \<open>Identifiers\<close>

lemma ids_toggle: "map sh_id (toggleEpisodeWatched env wl showId episodeId) = map sh_id wl"
proof (cases "find (\<lambda>s. sh_id s = showId) wl")
  case None
  then show ?thesis by (simp add: toggleEpisodeWatched_def)
next
  case (Some cur)
  then have "sh_id cur = showId" using find_show_Some by blast
  then show ?thesis unfolding toggleEpisodeWatched_def Some Let_def
    by (simp add: ids_replaceShow)
qed

lemma ids_season: "map sh_id (markSeasonWatched env wl showId n w) = map sh_id wl"
proof (cases "find (\<lambda>s. sh_id s = showId) wl")
  case None
  then show ?thesis by (simp add: markSeasonWatched_def)
next
  case (Some cur)
  then have "sh_id cur = showId" using find_show_Some by blast
  then show ?thesis unfolding markSeasonWatched_def Some Let_def
    by (simp add: ids_replaceShow)
qed

lemma ids_series: "map sh_id (markSeriesWatched env wl showId w) = map sh_id wl"
proof (cases "find (\<lambda>s. sh_id s = showId) wl")
  case None
  then show ?thesis by (simp add: markSeriesWatched_def)
next
  case (Some cur)
  then have "sh_id cur = showId" using find_show_Some by blast
  then show ?thesis unfolding markSeriesWatched_def Some Let_def
    by (simp add: ids_replaceShow)
qed

lemma sh_id_newItem [simp]: "sh_id (newItem env item) = sh_id item"
  by (simp add: newItem_def)

lemma ids_loaded: "map sh_id (addToWatchlist_loaded env net wl item) = map sh_id wl"
  unfolding addToWatchlist_loaded_def Let_def by (induction wl) simp_all

lemma ids_expand: "map sh_id (toggleSeasonExpansion wl showId n) = map sh_id wl"
  unfolding toggleSeasonExpansion_def Let_def by (induction wl) simp_all

lemma find_id_Some: "find (\<lambda>u. sh_id u = k) us = Some u \<Longrightarrow> sh_id u = k"
  by (induction us) (auto split: if_splits)

lemma ids_batch: "map sh_id (updateBatch env net wl batch) = map sh_id wl"
proof -
  have "sh_id (case find (\<lambda>u. sh_id u = sh_id x) us of None \<Rightarrow> x | Some updatedShow \<Rightarrow> updatedShow)
          = sh_id x" for x and us :: "Show list"
  proof (cases "find (\<lambda>u. sh_id u = sh_id x) us")
    case None
    then show ?thesis by simp
  next
    case (Some u)
    from find_id_Some[OF Some] show ?thesis by (simp add: Some)
  qed
  then show ?thesis unfolding updateBatch_def Let_def by (simp add: comp_def)
qed

lemma ids_batches: "map sh_id (foldl (updateBatch env net) wl bs) = map sh_id wl"
  by (induction bs arbitrary: wl) (simp_all add: ids_batch)

lemma ids_daily: "map sh_id (updateShowsDaily env net wl) = map sh_id wl"
  by (simp add: updateShowsDaily_def Let_def ids_batches)

lemma add_present: "sh_id item \<in> sh_id ` set wl \<Longrightarrow> addToWatchlist env wl item = wl"
  using find_show_None[of "sh_id item" wl] by (simp add: addToWatchlist_def)

lemma distinct_add: "distinct (map sh_id wl) \<Longrightarrow> distinct (map sh_id (addToWatchlist env wl item))"
  using find_show_None[of "sh_id item" wl] by (simp add: addToWatchlist_def)

lemma distinct_remove:
  "distinct (map sh_id wl) \<Longrightarrow> distinct (map sh_id (removeFromWatchlist wl itemId))"
  by (simp add: removeFromWatchlist_def distinct_map_filter)

lemma reachable_distinct: "reachable wl \<Longrightarrow> distinct (map sh_id wl)"
proof (induction rule: reachable.induct)
  case r_empty
  then show ?case by simp
next
  case (r_add wl env item)
  from r_add.IH show ?case by (rule distinct_add)
next
  case (r_loaded wl env net item)
  then show ?case by (simp add: ids_loaded)
next
  case (r_remove wl itemId)
  from r_remove.IH show ?case by (rule distinct_remove)
next
  case (r_series wl env showId watched)
  then show ?case by (simp add: ids_series)
next
  case (r_toggle wl env showId episodeId)
  then show ?case by (simp add: ids_toggle)
next
  case (r_season wl env showId seasonNumber watched)
  then show ?case by (simp add: ids_season)
next
  case (r_expand wl showId seasonNumber)
  then show ?case by (simp add: ids_expand)
next
  case (r_daily wl env net)
  then show ?case by (simp add: ids_daily)
qed

text \<open>
  C10. No reachable watchlist holds two shows with the same identifier.
  \<^verbatim>\<open>addToWatchlist\<close> with an item whose identifier is tracked already returns the
  watchlist unchanged, and otherwise appends one show with a new identifier;
  removing keeps the identifiers distinct; every other operation leaves the list
  of identifiers as it is.
\<close>

theorem identifiers_unique:
  "(reachable wl \<longrightarrow> distinct (map sh_id wl)) \<and>
   (sh_id item \<in> sh_id ` set wl \<longrightarrow> addToWatchlist env wl item = wl) \<and>
   (distinct (map sh_id wl) \<longrightarrow>
      distinct (map sh_id (addToWatchlist env wl item)) \<and>
      distinct (map sh_id (removeFromWatchlist wl itemId))) \<and>
   map sh_id (addToWatchlist_loaded env net wl item) = map sh_id wl \<and>
   map sh_id (toggleEpisodeWatched env wl showId episodeId) = map sh_id wl \<and>
   map sh_id (markSeasonWatched env wl showId n w) = map sh_id wl \<and>
   map sh_id (markSeriesWatched env wl showId w) = map sh_id wl \<and>
   map sh_id (toggleSeasonExpansion wl showId n) = map sh_id wl \<and>
   map sh_id (updateShowsDaily env net wl) = map sh_id wl"
  by (simp add: reachable_distinct add_present distinct_add distinct_remove ids_loaded ids_toggle
      ids_season ids_series ids_expand ids_daily)

theorem identifiers_unique_witness:
  "reachable (addToWatchlist ex_env (addToWatchlist ex_env [] (ex_show ''tvmaze-1'' 1 []))
                (ex_show ''tvmaze-2'' 2 [])) \<and>
   map sh_id (addToWatchlist ex_env (addToWatchlist ex_env [] (ex_show ''tvmaze-1'' 1 []))
                (ex_show ''tvmaze-2'' 2 [])) = [''tvmaze-1'', ''tvmaze-2''] \<and>
   distinct (map sh_id (addToWatchlist ex_env (addToWatchlist ex_env [] (ex_show ''tvmaze-1'' 1 []))
                (ex_show ''tvmaze-2'' 2 []))) \<and>
   sh_id (ex_show ''tvmaze-1'' 1 []) \<in> sh_id ` set (addToWatchlist ex_env [] (ex_show ''tvmaze-1'' 1 [])) \<and>
   addToWatchlist ex_env (addToWatchlist ex_env [] (ex_show ''tvmaze-1'' 1 [])) (ex_show ''tvmaze-1'' 1 [])
     = addToWatchlist ex_env [] (ex_show ''tvmaze-1'' 1 [])"
proof -
  let ?one = "addToWatchlist ex_env [] (ex_show ''tvmaze-1'' 1 [])"
  let ?two = "addToWatchlist ex_env ?one (ex_show ''tvmaze-2'' 2 [])"
  have r: "reachable ?two" by (intro reachable.intros)
  have ids: "map sh_id ?two = [''tvmaze-1'', ''tvmaze-2'']"
    by (simp add: addToWatchlist_def)
  have m: "sh_id (ex_show ''tvmaze-1'' 1 []) \<in> sh_id ` set ?one"
    by (simp add: addToWatchlist_def)
  from identifiers_unique[where wl = ?two and item = "ex_show ''tvmaze-1'' 1 []" and env = ex_env
      and net = "\<lambda>t. NetworkError" and showId = "''tvmaze-1''" and episodeId = 1
      and n = 1 and w = True and itemId = "''tvmaze-1''"] r
  have d: "distinct (map sh_id ?two)" by blast
  from identifiers_unique[where wl = ?one and item = "ex_show ''tvmaze-1'' 1 []" and env = ex_env
      and net = "\<lambda>t. NetworkError" and showId = "''tvmaze-1''" and episodeId = 1
      and n = 1 and w = True and itemId = "''tvmaze-1''"] m
  have a: "addToWatchlist ex_env ?one (ex_show ''tvmaze-1'' 1 []) = ?one" by blast
  show ?thesis using r ids d m a by blast
qed

section \<open>Failures of the episode source\<close>

text \<open>
  C7 (as the code has it). Neither adapter fails. The frontend's
  \<^verbatim>\<open>fetchEpisodeList\<close> returns the empty list when the fetch rejects and when the
  body is not an array; the backend's \<^verbatim>\<open>fetchEpisodesFromTvmaze\<close> returns it when
  the fetch rejects, when the response is not ok and when the body is not an
  array. Both also return the empty list for a show with no published episodes,
  and otherwise one episode per published episode.
\<close>

theorem fetch_failure_returns_empty:
  "fetchEpisodeList NetworkError = [] \<and>
   fetchEpisodeList (Response ok None) = [] \<and>
   fetchEpisodeList (Response ok (Some [])) = [] \<and>
   length (fetchEpisodeList (Response ok (Some published))) = length published \<and>
   fetchEpisodesFromTvmaze NetworkError = [] \<and>
   fetchEpisodesFromTvmaze (Response False body) = [] \<and>
   fetchEpisodesFromTvmaze (Response True None) = [] \<and>
   fetchEpisodesFromTvmaze (Response True (Some [])) = [] \<and>
   length (fetchEpisodesFromTvmaze (Response True (Some published))) = length published"
  by (simp add: fetchEpisodeList_def fetchEpisodesFromTvmaze_def)

text \<open>
  A failed fetch and a show without published episodes give the caller the same
  value, in both adapters.
\<close>

theorem fetch_failure_counterexample:
  "fetchEpisodeList NetworkError = fetchEpisodeList (Response True (Some [])) \<and>
   fetchEpisodesFromTvmaze NetworkError = fetchEpisodesFromTvmaze (Response True (Some [])) \<and>
   fetchEpisodesFromTvmaze (Response False None) = fetchEpisodesFromTvmaze (Response True (Some []))"
  by (simp add: fetchEpisodeList_def fetchEpisodesFromTvmaze_def)

section \<open>Batch refresh with a failing fetch\<close>

text \<open>
  What a refresh does to a show whose fetch fails: the frontend replaces its
  episode list by the empty list and resets the derived fields, whatever was
  stored; the backend leaves the database as it is and reports success.
\<close>

lemma refresh_after_failed_fetch:
  "net (sh_tvmazeId s) = NetworkError \<Longrightarrow>
   sh_episodes (updateShowWithEpisodes env net s) = [] \<and>
   sh_totalEpisodes (updateShowWithEpisodes env net s) = 0 \<and>
   sh_watched (updateShowWithEpisodes env net s) = Some False"
  by (simp add: updateShowWithEpisodes_def updateShowFromFresh_def fetchEpisodeList_def
      mergeWatchState_def Let_def)

lemma updateSingleShow_after_failed_fetch:
  "net tvmazeId = NetworkError \<Longrightarrow>
   updateSingleShow env net prismaFails db showId tvmazeId = Inr db"
  by (simp add: updateSingleShow_def fetchEpisodesFromTvmaze_def)

text \<open>
  C6 at five stale shows of which the third cannot be fetched. In the frontend's
  \<^verbatim>\<open>updateShowsDaily\<close> the shows 1, 2, 4 and 5 hold the two fresh episodes with the
  stored watch state, and show 3, which had one watched episode, is left with no
  episode at all. The backend's \<^verbatim>\<open>updateAllShowsEpisodes\<close> returns 5 updated and 0
  errors; show 3 keeps its row (one episode, last update at instant 0).
\<close>

theorem batch_refresh_failed_fetch:
  "map (\<lambda>s. (sh_id s, map ep_watched (sh_episodes s), sh_totalEpisodes s))
       (updateShowsDaily ex_env ex_net ex_watchlist) =
     [(''tvmaze-1'', [True, False], 2), (''tvmaze-2'', [True, False], 2), (''tvmaze-3'', [], 0),
      (''tvmaze-4'', [True, False], 2), (''tvmaze-5'', [True, False], 2)] \<and>
   map ep_watched (sh_episodes (ex_watchlist ! 2)) = [True] \<and>
   (case updateAllShowsEpisodes ex_env ex_net (\<lambda>showId. False) False ex_db of
      Inl e \<Rightarrow> None
    | Inr st \<Rightarrow> Some (updatedCount st, errorCount st,
                     map ds_totalEpisodes (db_shows (database st)),
                     map ds_lastApiUpdate (db_shows (database st)))) =
     Some (5, 0, [2, 2, 1, 2, 2], [now ex_env, now ex_env, 0, now ex_env, now ex_env])"
  by code_simp

end
